theory Spec2Isabelle
  imports Complex_Main "HOL-Library.Word"
begin

unbundle bit_operations_syntax

section \<open>Numbers and strings of the host language\<close>

text \<open>
  The program is TypeScript; its numbers are IEEE doubles. The embedding uses exact
  arithmetic: a finite number is a \<open>real\<close>, the three non-finite doubles are separate
  constructors, and there is no negative zero. \<open>Math.sin\<close> is \<open>sin\<close> and \<open>Math.PI\<close> is
  \<open>pi\<close>. Every comparison, clamp, array access and loop of the source is kept; what is
  idealised is rounding alone.

  \<open>trainingDays\<close> and \<open>seed\<close> have the TypeScript type \<open>number\<close>; both are taken to be
  integer-valued (\<open>int\<close>, any sign), which is what the callers pass.

  A string is a list of code units; \<open>char\<close> covers the code units U+0000 to U+00FF.
\<close>

datatype number = Fin real | PInf | NInf | NaN

fun num_sub :: "number \<Rightarrow> number \<Rightarrow> number" where
  "num_sub (Fin a) (Fin b) = Fin (a - b)"
| "num_sub NaN _ = NaN"
| "num_sub _ NaN = NaN"
| "num_sub PInf PInf = NaN"
| "num_sub NInf NInf = NaN"
| "num_sub PInf _ = PInf"
| "num_sub NInf _ = NInf"
| "num_sub (Fin a) PInf = NInf"
| "num_sub (Fin a) NInf = PInf"

fun num_mul :: "number \<Rightarrow> number \<Rightarrow> number" where
  "num_mul (Fin a) (Fin b) = Fin (a * b)"
| "num_mul NaN _ = NaN"
| "num_mul _ NaN = NaN"
| "num_mul (Fin a) PInf = (if a = 0 then NaN else if 0 < a then PInf else NInf)"
| "num_mul (Fin a) NInf = (if a = 0 then NaN else if 0 < a then NInf else PInf)"
| "num_mul PInf (Fin b) = (if b = 0 then NaN else if 0 < b then PInf else NInf)"
| "num_mul NInf (Fin b) = (if b = 0 then NaN else if 0 < b then NInf else PInf)"
| "num_mul PInf PInf = PInf"
| "num_mul NInf NInf = PInf"
| "num_mul PInf NInf = NInf"
| "num_mul NInf PInf = NInf"

fun num_div :: "number \<Rightarrow> number \<Rightarrow> number" where
  "num_div (Fin a) (Fin b) =
     (if b = 0 then (if a = 0 then NaN else if 0 < a then PInf else NInf) else Fin (a / b))"
| "num_div NaN _ = NaN"
| "num_div _ NaN = NaN"
| "num_div (Fin a) _ = Fin 0"
| "num_div PInf (Fin b) = (if 0 \<le> b then PInf else NInf)"
| "num_div NInf (Fin b) = (if 0 \<le> b then NInf else PInf)"
| "num_div _ _ = NaN"

text \<open>\<open>Math.abs\<close>, and the comparisons \<open>>\<close> and \<open><\<close>, which are false on NaN.\<close>

fun num_abs :: "number \<Rightarrow> number" where
  "num_abs (Fin a) = Fin \<bar>a\<bar>"
| "num_abs PInf = PInf"
| "num_abs NInf = PInf"
| "num_abs NaN = NaN"

fun num_gt :: "number \<Rightarrow> number \<Rightarrow> bool" where
  "num_gt (Fin a) (Fin b) = (b < a)"
| "num_gt NaN _ = False"
| "num_gt _ NaN = False"
| "num_gt PInf PInf = False"
| "num_gt PInf _ = True"
| "num_gt NInf _ = False"
| "num_gt (Fin a) NInf = True"
| "num_gt (Fin a) PInf = False"

definition num_lt :: "number \<Rightarrow> number \<Rightarrow> bool" where
  "num_lt a b = num_gt b a"

text \<open>\<open>Math.round\<close>: the nearest integer, a tie going up.\<close>

definition math_round :: "real \<Rightarrow> int" where
  "math_round x = \<lfloor>x + 1 / 2\<rfloor>"

fun num_round :: "number \<Rightarrow> number" where
  "num_round (Fin a) = Fin (of_int (math_round a))"
| "num_round n = n"

text \<open>
  \<open>Math.min(...xs)\<close> and \<open>Math.max(...xs)\<close> on an array of finite numbers: with no
  argument they are \<open>+Infinity\<close> and \<open>-Infinity\<close>.
\<close>

fun math_min :: "real list \<Rightarrow> number" where
  "math_min [] = PInf"
| "math_min (x # xs) = Fin (foldl min x xs)"

fun math_max :: "real list \<Rightarrow> number" where
  "math_max [] = NInf"
| "math_max (x # xs) = Fin (foldl max x xs)"

text \<open>
  \<open>xs[k]\<close> for an integer \<open>k\<close>: \<open>None\<close> is \<open>undefined\<close>, which the source meets both
  through \<open>?.value ?? d\<close> (the default \<open>d\<close> is taken) and in arithmetic (\<open>NaN\<close>).
\<close>

definition js_index :: "'a list \<Rightarrow> int \<Rightarrow> 'a option" where
  "js_index xs k = (if 0 \<le> k \<and> k < int (length xs) then Some (xs ! nat k) else None)"

fun to_number :: "real option \<Rightarrow> number" where
  "to_number None = NaN"
| "to_number (Some x) = Fin x"

subsection \<open>Numbers to strings\<close>

definition digit_char :: "nat \<Rightarrow> char" where
  "digit_char d = char_of (48 + d)"

fun show_nat :: "nat \<Rightarrow> string" where
  "show_nat n = (if n < 10 then [digit_char n] else show_nat (n div 10) @ [digit_char (n mod 10)])"

declare show_nat.simps [simp del]

definition show_int :: "int \<Rightarrow> string" where
  "show_int k = (if k < 0 then CHR ''-'' # show_nat (nat (- k)) else show_nat (nat k))"

text \<open>
  A number inside a template literal. The source only ever interpolates integer-valued
  numbers and \<open>NaN\<close>; a finite number is printed as the integer it is.
\<close>

fun num_to_string :: "number \<Rightarrow> string" where
  "num_to_string NaN = ''NaN''"
| "num_to_string PInf = ''Infinity''"
| "num_to_string NInf = ''-Infinity''"
| "num_to_string (Fin x) = show_int \<lfloor>x\<rfloor>"

text \<open>
  \<open>x.toFixed(f)\<close> for \<open>\<bar>x\<bar> < 10^21\<close>, which covers every number the source formats:
  the nearest multiple of \<open>10^-f\<close> (a tie away from zero), at least one digit before the
  point, and a minus sign whenever \<open>x < 0\<close>.
\<close>

definition fixed_digits :: "nat \<Rightarrow> real \<Rightarrow> string" where
  "fixed_digits f x =
     (let n = nat \<lfloor>\<bar>x\<bar> * 10 ^ f + 1 / 2\<rfloor>;
          m = show_nat n;
          m = (if length m \<le> f then replicate (f + 1 - length m) (CHR ''0'') @ m else m);
          k = length m
      in if f = 0 then m else take (k - f) m @ ''.'' @ drop (k - f) m)"

fun toFixed :: "nat \<Rightarrow> number \<Rightarrow> string" where
  "toFixed f NaN = ''NaN''"
| "toFixed f PInf = ''Infinity''"
| "toFixed f NInf = ''-Infinity''"
| "toFixed f (Fin x) = (if x < 0 then CHR ''-'' # fixed_digits f x else fixed_digits f x)"

subsection \<open>Strings to numbers\<close>

text \<open>
  \<open>parseInt(s)\<close> with no radix: leading white space is skipped, then an optional sign,
  then an optional \<open>0x\<close>/\<open>0X\<close> (which selects radix 16), then the longest run of digits of
  the radix; whatever follows is ignored. With no digit the result is \<open>NaN\<close>. The result
  is an integer or \<open>NaN\<close>, which is the type \<open>intnum\<close>.

  The result of the source is a double: the value of the digits rounded to 53
  significant bits, to the nearest and to the even one on a tie, which is \<open>to_double\<close>
  (up to \<open>2^53\<close> it changes nothing; the language leaves the digits after the
  twentieth to the engine, and the engines round the whole run). One case is outside
  the model: a run of digits whose value is beyond the largest double (more than 308
  decimal places) is \<open>Infinity\<close> in the source, and the loop over the horizon then has
  no end; \<open>to_double\<close> gives it the rounded integer.
\<close>

datatype intnum = INaN | IVal int

fun num_of_intnum :: "intnum \<Rightarrow> number" where
  "num_of_intnum INaN = NaN"
| "num_of_intnum (IVal k) = Fin (of_int k)"

definition is_white_space :: "char \<Rightarrow> bool" where
  "is_white_space c \<longleftrightarrow>
     c \<in> set [CHR 0x09, CHR 0x0A, CHR 0x0B, CHR 0x0C, CHR 0x0D, CHR 0x20, CHR 0xA0]"

definition digit_value :: "char \<Rightarrow> nat option" where
  "digit_value c =
     (let n = (of_char c :: nat)
      in if 48 \<le> n \<and> n \<le> 57 then Some (n - 48)
         else if 97 \<le> n \<and> n \<le> 122 then Some (n - 87)
         else if 65 \<le> n \<and> n \<le> 90 then Some (n - 55)
         else None)"

definition is_radix_digit :: "nat \<Rightarrow> char \<Rightarrow> bool" where
  "is_radix_digit R c = (case digit_value c of None \<Rightarrow> False | Some v \<Rightarrow> v < R)"

definition digits_value :: "nat \<Rightarrow> string \<Rightarrow> nat" where
  "digits_value R z =
     foldl (\<lambda>acc c. case digit_value c of None \<Rightarrow> acc | Some v \<Rightarrow> acc * R + v) 0 z"

fun bit_length :: "nat \<Rightarrow> nat" where
  "bit_length n = (if n = 0 then 0 else Suc (bit_length (n div 2)))"

declare bit_length.simps [simp del]

definition to_double :: "nat \<Rightarrow> nat" where
  "to_double m =
     (if m < 9007199254740992 then m
      else (let e = bit_length m - 53;
                q = m div 2 ^ e;
                r = m mod 2 ^ e;
                half = 2 ^ (e - 1)
            in (if half < r \<or> (r = half \<and> odd q) then q + 1 else q) * 2 ^ e))"

definition parseInt :: "string \<Rightarrow> intnum" where
  "parseInt str =
     (let s = dropWhile is_white_space str;
          sign = (if s \<noteq> [] \<and> hd s = CHR ''-'' then - 1 else (1 :: int));
          s = (if s \<noteq> [] \<and> (hd s = CHR ''+'' \<or> hd s = CHR ''-'') then tl s else s);
          hex = (take 2 s = ''0x'' \<or> take 2 s = ''0X'');
          R = (if hex then 16 else 10);
          s = (if hex then drop 2 s else s);
          z = takeWhile (is_radix_digit R) s
      in if z = [] then INaN else IVal (sign * int (to_double (digits_value R z))))"

text \<open>\<open>s.endsWith(t)\<close>, \<open>s.includes(t)\<close> and \<open>s.slice(0, -1)\<close>.\<close>

definition endsWith :: "string \<Rightarrow> string \<Rightarrow> bool" where
  "endsWith s t \<longleftrightarrow> length t \<le> length s \<and> drop (length s - length t) s = t"

fun includes_str :: "string \<Rightarrow> string \<Rightarrow> bool" where
  "includes_str [] t = (t = [])"
| "includes_str (c # cs) t = (take (length t) (c # cs) = t \<or> includes_str cs t)"

definition slice_0_m1 :: "string \<Rightarrow> string" where
  "slice_0_m1 s = butlast s"

text \<open>
  A string in which \<open>parseInt\<close> finds an integer: after the leading white space and an
  optional sign comes a decimal digit, or \<open>0x\<close>/\<open>0X\<close> and a hexadecimal digit.
\<close>

definition parseable :: "string \<Rightarrow> bool" where
  "parseable str =
     (let s = dropWhile is_white_space str;
          s = (if s \<noteq> [] \<and> (hd s = CHR ''+'' \<or> hd s = CHR ''-'') then tl s else s)
      in if take 2 s = ''0x'' \<or> take 2 s = ''0X''
         then drop 2 s \<noteq> [] \<and> is_radix_digit 16 (hd (drop 2 s))
         else s \<noteq> [] \<and> is_radix_digit 10 (hd s))"

section \<open>The seeded generator\<close>

text \<open>
  \<open>mulberry32(a)\<close> returns a closure over \<open>a\<close>. Its state is the 32-bit integer left in
  \<open>a\<close>; \<open>a |= 0\<close> makes the seed one. A call returns the next number in [0, 1) and the
  new state. \<open>Math.imul\<close> is the product modulo \<open>2^32\<close>, \<open>>>>\<close> is the logical shift.
\<close>

type_synonym rng = "32 word"

definition mulberry32 :: "int \<Rightarrow> rng" where
  "mulberry32 seed = word_of_int seed"

definition random :: "rng \<Rightarrow> real \<times> rng" where
  "random a0 =
     (let a = a0 + 0x6D2B79F5;
          t = (a XOR drop_bit 15 a) * (1 OR a);
          t = (t + (t XOR drop_bit 7 t) * (61 OR t)) XOR t
      in (real (unat (t XOR drop_bit 14 t)) / 4294967296, a))"

section \<open>The variable table\<close>

datatype ForecastVariable =
  temperature | salinity | ph | oxygen | chlorophyll | nitrate | bbp700 | cdom | downwelling_par

fun ARGO_RANGES :: "ForecastVariable \<Rightarrow> real \<times> real" where
  "ARGO_RANGES temperature = (26.51, 29.27)"
| "ARGO_RANGES salinity = (35.28, 35.70)"
| "ARGO_RANGES ph = (7.9297, 8.0356)"
| "ARGO_RANGES oxygen = (5.4508, 6.1149)"
| "ARGO_RANGES chlorophyll = (0.94599, 1.27193)"
| "ARGO_RANGES nitrate = (1.63915, 2.08097)"
| "ARGO_RANGES bbp700 = (0.003708, 0.024895)"
| "ARGO_RANGES cdom = (0.25337, 0.31673)"
| "ARGO_RANGES downwelling_par = (168.58, 226.57)"

section \<open>Horizon resolution\<close>

definition getHorizonInDays :: "string \<Rightarrow> intnum" where
  "getHorizonInDays horizon =
     (if endsWith horizon ''d'' then parseInt (slice_0_m1 horizon)
      else if includes_str horizon ''month'' then IVal 30
      else IVal 30)"

section \<open>The data model\<close>

text \<open>
  The record fields are the fields of the TypeScript types, prefixed where the name is
  taken in HOL or used by two types: \<open>pt_\<close> for \<open>ForecastDataPoint\<close> (\<open>day\<close>, \<open>value\<close>,
  \<open>type\<close>, \<open>confidence\<close>), \<open>st_\<close> for \<open>stats\<close> (\<open>min\<close>, \<open>max\<close>, \<open>trend\<close>, \<open>confidence\<close>,
  \<open>narrative\<close>) and \<open>r_\<close> for \<open>ForecastResult\<close> (\<open>variable\<close>, \<open>data\<close>, \<open>stats\<close>, \<open>range\<close>).
  An absent \<open>confidence\<close> is \<open>None\<close>.
\<close>

datatype point_type = historical | forecast

record ForecastDataPoint =
  pt_day :: string
  pt_value :: real
  pt_type :: point_type
  pt_confidence :: "(real \<times> real) option"

record ForecastStats =
  st_min :: number
  st_max :: number
  st_trend :: number
  st_confidence :: int
  st_narrative :: string

record ForecastResult =
  r_variable :: ForecastVariable
  r_data :: "ForecastDataPoint list"
  r_stats :: ForecastStats
  r_range :: "real \<times> real"

record ForecastParams =
  trainingDays :: int
  horizon :: string
  variables :: "ForecastVariable list"

record ForecastData =
  params :: ForecastParams
  results :: "ForecastResult list"
  narrative :: string

section \<open>The single-variable generator\<close>

text \<open>
  \<open>generateSingleForecast\<close> below follows the source statement by statement. The two
  \<open>for\<close> loops are the recursive functions \<open>historical_loop\<close> and \<open>forecast_loop\<close>, which
  carry the array being filled, the state of the generator and, for the second,
  \<open>lastVal\<close>. The constant \<open>totalDays\<close> of the source is never read and has no
  counterpart.
\<close>

subsection \<open>Historical data\<close>

text \<open>The body of the first loop, with \<open>r\<close> the number drawn in it.\<close>

definition historical_point :: "real \<Rightarrow> real \<Rightarrow> int \<Rightarrow> int \<Rightarrow> real \<Rightarrow> ForecastDataPoint" where
  "historical_point mn mx td i r =
     (let range = mx - mn;
          sinusoidal = sin ((of_int i / 365) * pi * 2) * 0.25 + sin ((of_int i / 30) * pi * 2) * 0.25;
          noise = (r - 0.5) * 0.1;
          normalizedValue = 0.5 + 0.5 * (sinusoidal + noise);
          v = mn + normalizedValue * range
      in \<lparr>pt_day = ''D-'' @ show_int (td - i),
          pt_value = max mn (min mx v),
          pt_type = historical,
          pt_confidence = None\<rparr>)"

function historical_loop ::
  "real \<Rightarrow> real \<Rightarrow> int \<Rightarrow> int \<Rightarrow> ForecastDataPoint list \<Rightarrow> rng \<Rightarrow> ForecastDataPoint list \<times> rng"
where
  "historical_loop mn mx td i historicalData g =
     (if i < td
      then (let (r, g') = random g
            in historical_loop mn mx td (i + 1) (historicalData @ [historical_point mn mx td i r]) g')
      else (historicalData, g))"
  by pat_completeness auto
termination
  by (relation "measure (\<lambda>(mn, mx, td, i, historicalData, g). nat (td - i))") auto

declare historical_loop.simps [simp del]

subsection \<open>Forecast data\<close>

text \<open>\<open>i < horizonDays\<close>, false when \<open>horizonDays\<close> is \<open>NaN\<close>.\<close>

fun lt_intnum :: "int \<Rightarrow> intnum \<Rightarrow> bool" where
  "lt_intnum i INaN = False"
| "lt_intnum i (IVal h) = (i < h)"

fun value_or :: "ForecastDataPoint option \<Rightarrow> real \<Rightarrow> real" where
  "value_or None d = d"
| "value_or (Some p) d = pt_value p"

text \<open>The body of the second loop, with \<open>r\<close> the number drawn in it.\<close>

definition forecast_point ::
  "real \<Rightarrow> real \<Rightarrow> int \<Rightarrow> ForecastDataPoint list \<Rightarrow> real \<Rightarrow> real \<Rightarrow> int \<Rightarrow> real \<Rightarrow> real
     \<Rightarrow> ForecastDataPoint"
where
  "forecast_point mn mx td historicalData seasonalAmplitude trend i lastVal r =
     (let range = mx - mn;
          seasonalVal =
            (if td \<le> 20
             then value_or (js_index historicalData (int (length historicalData) - (30 - (i mod 30)))) lastVal
                    - lastVal
             else sin ((of_int (td + i) / 365) * pi * 2) * range * 0.1 * seasonalAmplitude);
          uncertaintyNoise = (r - 0.5) * range * 0.2 * (1 - of_int td / 120);
          nextVal = lastVal + seasonalVal + trend + uncertaintyNoise;
          nextVal = max mn (min mx nextVal);
          confidenceRange = range * 0.15 * (1 - of_int td / 120);
          lower = max mn (nextVal - confidenceRange);
          upper = min mx (nextVal + confidenceRange)
      in \<lparr>pt_day = ''D+'' @ show_int (i + 1),
          pt_value = nextVal,
          pt_type = forecast,
          pt_confidence = Some (lower, upper)\<rparr>)"

function forecast_loop ::
  "real \<Rightarrow> real \<Rightarrow> int \<Rightarrow> ForecastDataPoint list \<Rightarrow> real \<Rightarrow> real \<Rightarrow> intnum
     \<Rightarrow> int \<Rightarrow> ForecastDataPoint list \<Rightarrow> real \<Rightarrow> rng \<Rightarrow> ForecastDataPoint list"
where
  "forecast_loop mn mx td historicalData seasonalAmplitude trend horizonDays i forecastData lastVal g =
     (if lt_intnum i horizonDays
      then (let (r, g') = random g;
                p = forecast_point mn mx td historicalData seasonalAmplitude trend i lastVal r
            in forecast_loop mn mx td historicalData seasonalAmplitude trend horizonDays
                 (i + 1) (forecastData @ [p]) (pt_value p) g')
      else forecastData)"
  by pat_completeness auto
termination
  by (relation "measure (\<lambda>(mn, mx, td, hd, sa, tr, h, i, fd, lv, g).
        case h of INaN \<Rightarrow> 0 | IVal n \<Rightarrow> nat (n - i))") (auto split: intnum.splits)

declare forecast_loop.simps [simp del]

subsection \<open>Statistics and narrative\<close>

definition single_narrative :: "int \<Rightarrow> int \<Rightarrow> number \<Rightarrow> number \<Rightarrow> number \<Rightarrow> string" where
  "single_narrative td confidence forecastMin forecastMax forecastTrend =
     (if td \<le> 20
      then ''High uncertainty ('' @ show_int confidence
             @ ''% confidence) due to short training period. Bands are wide. ''
      else if td \<le> 50
      then ''Balanced confidence ('' @ show_int confidence
             @ ''%) with some seasonal patterns emerging. ''
      else ''Strong confidence ('' @ show_int confidence
             @ ''%) with clear seasonal cycle. Bands are narrow. '')
     @ ''Forecast shows values between '' @ toFixed 2 forecastMin
     @ '' and '' @ toFixed 2 forecastMax @ ''. ''
     @ (if num_gt (num_abs (num_mul forecastTrend (Fin 100))) (Fin 0.01)
        then ''A '' @ (if num_gt forecastTrend (Fin 0) then ''warming'' else ''cooling'')
               @ '' trend of approx. '' @ toFixed 3 forecastTrend @ ''/day is detected.''
        else ''The trend appears stable.'')"

definition generateSingleForecast ::
  "ForecastVariable \<Rightarrow> ForecastParams \<Rightarrow> int \<Rightarrow> ForecastResult"
where
  "generateSingleForecast variable ps seed =
     (let g = mulberry32 seed;
          td = trainingDays ps;
          horizonDays = getHorizonInDays (horizon ps);
          (mn, mx) = ARGO_RANGES variable;
          range = mx - mn;
          (historicalData, g) = historical_loop mn mx td 0 [] g;
          lastVal = value_or (js_index historicalData (int (length historicalData) - 1)) (mn + range / 2);
          seasonalAmplitude = (if td > 30 then (of_int td / 100) * 0.5 else 0);
          (trend, g) = (if td > 30 then (let (r, g') = random g in ((r - 0.5) * (range * 0.01), g'))
                        else (0, g));
          forecastData = forecast_loop mn mx td historicalData seasonalAmplitude trend horizonDays
                           0 [] lastVal g;
          fullData = historicalData @ forecastData;
          forecastSlice = map pt_value forecastData;
          forecastMin = math_min forecastSlice;
          forecastMax = math_max forecastSlice;
          forecastTrend =
            num_div (num_sub (to_number (js_index forecastSlice (int (length forecastSlice) - 1)))
                             (to_number (js_index forecastSlice 0)))
                    (num_of_intnum horizonDays);
          confidence = math_round (of_int td / 100 * 80 + 20);
          narrative = single_narrative td confidence forecastMin forecastMax forecastTrend
      in \<lparr>r_variable = variable,
          r_data = fullData,
          r_stats = \<lparr>st_min = forecastMin, st_max = forecastMax, st_trend = forecastTrend,
                     st_confidence = confidence, st_narrative = narrative\<rparr>,
          r_range = (mn, mx)\<rparr>)"

section \<open>The orchestrator\<close>

definition generateOverallNarrative :: "ForecastResult list \<Rightarrow> ForecastParams \<Rightarrow> string" where
  "generateOverallNarrative rs ps =
     ''This forecast for the next **'' @ horizon ps @ ''**, based on **''
       @ show_int (trainingDays ps)
       @ '' days** of historical data, suggests the following key trends:'' @ [CHR 0x0A, CHR 0x0A]
     @ (case find (\<lambda>r. r_variable r = temperature) rs of
          None \<Rightarrow> []
        | Some tempResult \<Rightarrow>
            ''*   **Temperature:** A ''
            @ (if num_gt (st_trend (r_stats tempResult)) (Fin 0)
               then ''gradual increase'' else ''slight decrease'')
            @ '' is anticipated, with values remaining within the historical range. Peak temperature is expected around the end of the forecast period.''
            @ [CHR 0x0A])
     @ (case find (\<lambda>r. r_variable r = chlorophyll) rs of
          None \<Rightarrow> []
        | Some chloroResult \<Rightarrow>
            ''*   **Chlorophyll:** We expect a ''
            @ (if num_gt (st_trend (r_stats chloroResult)) (Fin 0)
               then ''modest rise'' else ''slight decline'')
            @ '' in chlorophyll, consistent with seasonal patterns. No significant bloom events are forecasted.''
            @ [CHR 0x0A])
     @ (case find (\<lambda>r. r_variable r = oxygen) rs of
          None \<Rightarrow> []
        | Some oxygenResult \<Rightarrow>
            ''*   **Oxygen:** Oxygen levels are projected to remain stable, with minor fluctuations potentially linked to temperature shifts. Overall ocean health appears steady.''
            @ [CHR 0x0A])
     @ (case find (\<lambda>r. r_variable r = salinity) rs of
          None \<Rightarrow> []
        | Some salinityResult \<Rightarrow>
            (if num_lt (num_abs (st_trend (r_stats salinityResult))) (Fin 0.001)
             then ''*   **Salinity & pH:** Both salinity and pH are expected to show minimal variation, indicating stable chemical conditions.''
                  @ [CHR 0x0A]
             else []))
     @ [CHR 0x0A] @ ''**Confidence:** The overall confidence in this forecast is **''
     @ num_to_string (num_round (num_div
          (Fin (of_int (foldl (\<lambda>acc r. acc + st_confidence (r_stats r)) 0 rs)))
          (Fin (of_nat (length rs)))))
     @ ''%**. Longer training periods generally yield higher confidence.''"

text \<open>\<open>xs.map((x, index) => f(x, index))\<close>, the index counted from \<open>i\<close>.\<close>

fun map_index :: "('a \<Rightarrow> nat \<Rightarrow> 'b) \<Rightarrow> nat \<Rightarrow> 'a list \<Rightarrow> 'b list" where
  "map_index f i [] = []"
| "map_index f i (x # xs) = f x i # map_index f (Suc i) xs"

definition generateAllForecasts :: "ForecastParams \<Rightarrow> ForecastData" where
  "generateAllForecasts ps =
     (let rs = map_index (\<lambda>variable index.
                  generateSingleForecast variable ps (trainingDays ps + int index))
                0 (variables ps);
          narrative = generateOverallNarrative rs ps
      in \<lparr>params = ps, results = rs, narrative = narrative\<rparr>)"

section \<open>Predicates on data points\<close>

text \<open>
  The properties of a point that the statements below are made of, for a variable with
  the bound \<open>[mn, mx]\<close>: the value lies in the bound; the confidence pair, where there
  is one, lies in the bound and encloses the value.
\<close>

definition value_in_range :: "real \<Rightarrow> real \<Rightarrow> ForecastDataPoint \<Rightarrow> bool" where
  "value_in_range mn mx p \<longleftrightarrow> mn \<le> pt_value p \<and> pt_value p \<le> mx"

fun band_encloses :: "real \<Rightarrow> real \<Rightarrow> real \<Rightarrow> (real \<times> real) option \<Rightarrow> bool" where
  "band_encloses mn mx v None = True"
| "band_encloses mn mx v (Some (lo, hi)) = (mn \<le> lo \<and> lo \<le> v \<and> v \<le> hi \<and> hi \<le> mx)"

definition band_ordered :: "real \<Rightarrow> real \<Rightarrow> ForecastDataPoint \<Rightarrow> bool" where
  "band_ordered mn mx p = band_encloses mn mx (pt_value p) (pt_confidence p)"

text \<open>
  The confidence band in the words of the specification: a half-width of
  \<open>range * 0.075 * (1 - trainingDays / 120)\<close> around the value, each side clamped to
  \<open>[mn, mx]\<close>.
\<close>

definition spec_confidence_band :: "real \<Rightarrow> real \<Rightarrow> int \<Rightarrow> real \<Rightarrow> real \<times> real" where
  "spec_confidence_band mn mx td v =
     (let w = (mx - mn) * 0.075 * (1 - of_int td / 120)
      in (max mn (min mx (v - w)), max mn (min mx (v + w))))"

text \<open>
  The confidence band as the second loop builds it: a half-width of
  \<open>range * 0.15 * (1 - trainingDays / 120)\<close>, the lower side raised to \<open>mn\<close>, the upper
  side lowered to \<open>mx\<close>.
\<close>

definition code_confidence_band :: "real \<Rightarrow> real \<Rightarrow> int \<Rightarrow> real \<Rightarrow> real \<times> real" where
  "code_confidence_band mn mx td v =
     (let w = (mx - mn) * 0.15 * (1 - of_int td / 120)
      in (max mn (v - w), min mx (v + w)))"

definition clamped_confidence_band :: "real \<Rightarrow> real \<Rightarrow> int \<Rightarrow> real \<Rightarrow> real \<times> real" where
  "clamped_confidence_band mn mx td v =
     (let w = (mx - mn) * 0.15 * (1 - of_int td / 120)
      in (max mn (min mx (v - w)), max mn (min mx (v + w))))"

text \<open>What holds of every point of the first loop, and of every point of the second.\<close>

definition historical_ok :: "real \<Rightarrow> real \<Rightarrow> ForecastDataPoint \<Rightarrow> bool" where
  "historical_ok mn mx p \<longleftrightarrow>
     pt_type p = historical \<and> pt_confidence p = None \<and> mn \<le> pt_value p \<and> pt_value p \<le> mx"

definition forecast_ok :: "real \<Rightarrow> real \<Rightarrow> int \<Rightarrow> ForecastDataPoint \<Rightarrow> bool" where
  "forecast_ok mn mx td p \<longleftrightarrow>
     pt_type p = forecast \<and> pt_confidence p = Some (code_confidence_band mn mx td (pt_value p))
       \<and> mn \<le> pt_value p \<and> pt_value p \<le> mx"

text \<open>A forecast point carries the band \<open>f\<close> of its value.\<close>

definition band_is :: "(real \<Rightarrow> real \<times> real) \<Rightarrow> ForecastDataPoint \<Rightarrow> bool" where
  "band_is f p \<longleftrightarrow> pt_type p = historical \<or> pt_confidence p = Some (f (pt_value p))"

section \<open>Properties of the two loops\<close>

lemma historical_loop_length:
  "length (fst (historical_loop mn mx td i acc g)) = length acc + nat (td - i)"
proof (induction mn mx td i acc g rule: historical_loop.induct)
  case (1 mn mx td i acc g)
  show ?case
  proof (cases "i < td")
    case True
    obtain r g' where rg: "random g = (r, g')" by (cases "random g")
    have "length (fst (historical_loop mn mx td (i + 1) (acc @ [historical_point mn mx td i r]) g'))
          = length (acc @ [historical_point mn mx td i r]) + nat (td - (i + 1))"
      using "1.IH" [OF True rg [symmetric] refl] .
    with True rg show ?thesis
      by (subst historical_loop.simps) (simp add: nat_diff_distrib')
  next
    case False
    then show ?thesis by (subst historical_loop.simps) simp
  qed
qed

lemma historical_loop_all:
  "\<forall>j r. P (historical_point mn mx td j r) \<Longrightarrow> list_all P acc
     \<Longrightarrow> list_all P (fst (historical_loop mn mx td i acc g))"
proof (induction mn mx td i acc g rule: historical_loop.induct)
  case (1 mn mx td i acc g)
  show ?case
  proof (cases "i < td")
    case True
    obtain r g' where rg: "random g = (r, g')" by (cases "random g")
    have "list_all P (acc @ [historical_point mn mx td i r])"
      using "1.prems" by simp
    then have "list_all P (fst (historical_loop mn mx td (i + 1) (acc @ [historical_point mn mx td i r]) g'))"
      using "1.IH" [OF True rg [symmetric] refl] "1.prems" (1) by blast
    with True rg show ?thesis
      by (subst historical_loop.simps) simp
  next
    case False
    with "1.prems" show ?thesis by (subst historical_loop.simps) simp
  qed
qed

lemma historical_loop_days:
  "map pt_day (fst (historical_loop mn mx td i acc g))
     = map pt_day acc @ map (\<lambda>k. ''D-'' @ show_int (td - k)) [i..td - 1]"
proof (induction mn mx td i acc g rule: historical_loop.induct)
  case (1 mn mx td i acc g)
  show ?case
  proof (cases "i < td")
    case True
    obtain r g' where rg: "random g = (r, g')" by (cases "random g")
    have up: "[i..td - 1] = i # [i + 1..td - 1]"
      using True by (simp add: upto_rec1)
    have "map pt_day (fst (historical_loop mn mx td (i + 1) (acc @ [historical_point mn mx td i r]) g'))
          = map pt_day (acc @ [historical_point mn mx td i r])
            @ map (\<lambda>k. ''D-'' @ show_int (td - k)) [i + 1..td - 1]"
      using "1.IH" [OF True rg [symmetric] refl] .
    with True rg up show ?thesis
      by (subst historical_loop.simps) (simp add: historical_point_def)
  next
    case False
    then show ?thesis by (subst historical_loop.simps) simp
  qed
qed


lemma forecast_loop_length:
  "length (forecast_loop mn mx td hs sa tr h i acc lv g)
     = length acc + (case h of INaN \<Rightarrow> 0 | IVal n \<Rightarrow> nat (n - i))"
proof (induction mn mx td hs sa tr h i acc lv g rule: forecast_loop.induct)
  case (1 mn mx td hs sa tr h i acc lv g)
  show ?case
  proof (cases "lt_intnum i h")
    case True
    obtain r g' where rg: "random g = (r, g')" by (cases "random g")
    define p where "p = forecast_point mn mx td hs sa tr i lv r"
    have "length (forecast_loop mn mx td hs sa tr h (i + 1) (acc @ [p]) (pt_value p) g')
          = length (acc @ [p]) + (case h of INaN \<Rightarrow> 0 | IVal n \<Rightarrow> nat (n - (i + 1)))"
      using "1.IH" [OF True rg [symmetric] refl p_def] .
    moreover have "forecast_loop mn mx td hs sa tr h i acc lv g
          = forecast_loop mn mx td hs sa tr h (i + 1) (acc @ [p]) (pt_value p) g'"
      using True rg by (subst forecast_loop.simps) (simp add: p_def Let_def)
    ultimately show ?thesis
      using True by (cases h) (simp_all add: nat_diff_distrib')
  next
    case False
    then show ?thesis
      by (subst forecast_loop.simps) (cases h; simp)
  qed
qed

lemma forecast_loop_all:
  "\<forall>j lv r. P (forecast_point mn mx td hs sa tr j lv r) \<Longrightarrow> list_all P acc
     \<Longrightarrow> list_all P (forecast_loop mn mx td hs sa tr h i acc lv g)"
proof (induction mn mx td hs sa tr h i acc lv g rule: forecast_loop.induct)
  case (1 mn mx td hs sa tr h i acc lv g)
  show ?case
  proof (cases "lt_intnum i h")
    case True
    obtain r g' where rg: "random g = (r, g')" by (cases "random g")
    define p where "p = forecast_point mn mx td hs sa tr i lv r"
    have "list_all P (acc @ [p])"
      using "1.prems" by (simp add: p_def)
    then have "list_all P (forecast_loop mn mx td hs sa tr h (i + 1) (acc @ [p]) (pt_value p) g')"
      using "1.IH" [OF True rg [symmetric] refl p_def] "1.prems" (1) by blast
    moreover have "forecast_loop mn mx td hs sa tr h i acc lv g
          = forecast_loop mn mx td hs sa tr h (i + 1) (acc @ [p]) (pt_value p) g'"
      using True rg by (subst forecast_loop.simps) (simp add: p_def Let_def)
    ultimately show ?thesis by simp
  next
    case False
    with "1.prems" show ?thesis by (subst forecast_loop.simps) simp
  qed
qed

lemma forecast_loop_days:
  "map pt_day (forecast_loop mn mx td hs sa tr h i acc lv g)
     = map pt_day acc
       @ (case h of INaN \<Rightarrow> [] | IVal n \<Rightarrow> map (\<lambda>k. ''D+'' @ show_int (k + 1)) [i..n - 1])"
proof (induction mn mx td hs sa tr h i acc lv g rule: forecast_loop.induct)
  case (1 mn mx td hs sa tr h i acc lv g)
  show ?case
  proof (cases "lt_intnum i h")
    case True
    then obtain n where h: "h = IVal n" and lt: "i < n" by (cases h) simp_all
    obtain r g' where rg: "random g = (r, g')" by (cases "random g")
    define p where "p = forecast_point mn mx td hs sa tr i lv r"
    have day: "pt_day p = ''D+'' @ show_int (i + 1)"
      by (simp add: p_def forecast_point_def Let_def)
    have up: "[i..n - 1] = i # [i + 1..n - 1]"
      using lt by (simp add: upto_rec1)
    have "map pt_day (forecast_loop mn mx td hs sa tr h (i + 1) (acc @ [p]) (pt_value p) g')
          = map pt_day (acc @ [p])
            @ (case h of INaN \<Rightarrow> [] | IVal n \<Rightarrow> map (\<lambda>k. ''D+'' @ show_int (k + 1)) [i + 1..n - 1])"
      using "1.IH" [OF True rg [symmetric] refl p_def] .
    moreover have "forecast_loop mn mx td hs sa tr h i acc lv g
          = forecast_loop mn mx td hs sa tr h (i + 1) (acc @ [p]) (pt_value p) g'"
      using True rg by (subst forecast_loop.simps) (simp add: p_def Let_def)
    ultimately show ?thesis
      using h up day by simp
  next
    case False
    then show ?thesis
      by (subst forecast_loop.simps) (cases h; simp)
  qed
qed


lemma generateSingleForecast_parts:
  assumes rg: "ARGO_RANGES v = (mn, mx)"
  obtains hs fs sa tr lv g where
    "hs = fst (historical_loop mn mx (trainingDays ps) 0 [] (mulberry32 seed))"
    "fs = forecast_loop mn mx (trainingDays ps) hs sa tr (getHorizonInDays (horizon ps)) 0 [] lv g"
    "r_data (generateSingleForecast v ps seed) = hs @ fs"
    "st_min (r_stats (generateSingleForecast v ps seed)) = math_min (map pt_value fs)"
    "st_max (r_stats (generateSingleForecast v ps seed)) = math_max (map pt_value fs)"
    "st_trend (r_stats (generateSingleForecast v ps seed))
       = num_div (num_sub (to_number (js_index (map pt_value fs) (int (length (map pt_value fs)) - 1)))
                          (to_number (js_index (map pt_value fs) 0)))
                 (num_of_intnum (getHorizonInDays (horizon ps)))"
proof -
  define td where "td = trainingDays ps"
  define hl where "hl = historical_loop mn mx td 0 [] (mulberry32 seed)"
  define hs where "hs = fst hl"
  define lv where "lv = value_or (js_index hs (int (length hs) - 1)) (mn + (mx - mn) / 2)"
  define sa :: real where "sa = (if td > 30 then (of_int td / 100) * 0.5 else 0)"
  define tg where "tg = (if td > 30 then (let (r, g') = random (snd hl) in ((r - 0.5) * ((mx - mn) * 0.01), g'))
                        else (0, snd hl))"
  define fs where "fs = forecast_loop mn mx td hs sa (fst tg) (getHorizonInDays (horizon ps)) 0 [] lv (snd tg)"
  have eq: "generateSingleForecast v ps seed =
     (let forecastSlice = map pt_value fs;
          forecastMin = math_min forecastSlice;
          forecastMax = math_max forecastSlice;
          forecastTrend =
            num_div (num_sub (to_number (js_index forecastSlice (int (length forecastSlice) - 1)))
                             (to_number (js_index forecastSlice 0)))
                    (num_of_intnum (getHorizonInDays (horizon ps)));
          confidence = math_round (of_int td / 100 * 80 + 20);
          narrative = single_narrative td confidence forecastMin forecastMax forecastTrend
      in \<lparr>r_variable = v,
          r_data = hs @ fs,
          r_stats = \<lparr>st_min = forecastMin, st_max = forecastMax, st_trend = forecastTrend,
                     st_confidence = confidence, st_narrative = narrative\<rparr>,
          r_range = (mn, mx)\<rparr>)"
    unfolding generateSingleForecast_def rg fs_def tg_def sa_def lv_def hs_def hl_def td_def
    by (simp only: Let_def split_def fst_conv snd_conv)
  show thesis
    by (rule that [of hs fs sa "fst tg" lv "snd tg"])
       (simp_all add: eq Let_def hs_def hl_def td_def fs_def)
qed

lemma upto_shift: "map (\<lambda>k. k + 1) [0..h - 1] = [1..h]"
proof (rule nth_equalityI)
  show "length (map (\<lambda>k. k + 1) [0..h - 1]) = length [1..h]" by simp
next
  fix i assume "i < length (map (\<lambda>k. k + 1) [0..h - 1])"
  then have i: "int i < h" by simp
  then show "map (\<lambda>k. k + 1) [0..h - 1] ! i = [1..h] ! i"
    by simp
qed

lemma upto_rev: "map (\<lambda>k. td - k) [0..td - 1] = rev [1..td]"
proof (rule nth_equalityI)
  show "length (map (\<lambda>k. td - k) [0..td - 1]) = length (rev [1..td])" by simp
next
  fix i assume "i < length (map (\<lambda>k. td - k) [0..td - 1])"
  then have i: "int i < td" by simp
  then have "rev [1..td] ! i = [1..td] ! (nat td - Suc i)"
    by (subst rev_nth) auto
  also have "\<dots> = 1 + int (nat td - Suc i)"
    using i by (subst nth_upto) auto
  also have "\<dots> = td - int i" using i by auto
  finally show "map (\<lambda>k. td - k) [0..td - 1] ! i = rev [1..td] ! i"
    using i by (simp add: nth_upto)
qed

lemma data_length:
  "length (r_data (generateSingleForecast v ps seed))
     = nat (trainingDays ps) + (case getHorizonInDays (horizon ps) of INaN \<Rightarrow> 0 | IVal n \<Rightarrow> nat n)"
proof -
  obtain mn mx where rg: "ARGO_RANGES v = (mn, mx)" by (cases "ARGO_RANGES v")
  show ?thesis
  proof (rule generateSingleForecast_parts [OF rg, of ps seed])
    fix hs fs sa tr lv g
    assume hs: "hs = fst (historical_loop mn mx (trainingDays ps) 0 [] (mulberry32 seed))"
      and fs: "fs = forecast_loop mn mx (trainingDays ps) hs sa tr (getHorizonInDays (horizon ps)) 0 [] lv g"
      and d: "r_data (generateSingleForecast v ps seed) = hs @ fs"
    have "length hs = nat (trainingDays ps)"
      by (simp add: hs historical_loop_length)
    moreover have "length fs = (case getHorizonInDays (horizon ps) of INaN \<Rightarrow> 0 | IVal n \<Rightarrow> nat n)"
      by (simp add: fs forecast_loop_length split: intnum.splits)
    ultimately show ?thesis by (simp add: d)
  qed
qed


lemma horizon_7d: "getHorizonInDays ''7d'' = IVal 7"
  by (simp add: getHorizonInDays_def endsWith_def slice_0_m1_def parseInt_def
      is_white_space_def is_radix_digit_def digit_value_def digits_value_def to_double_def)

lemma horizon_m5d: "getHorizonInDays ''-5d'' = IVal (- 5)"
  by (simp add: getHorizonInDays_def endsWith_def slice_0_m1_def parseInt_def
      is_white_space_def is_radix_digit_def digit_value_def digits_value_def to_double_def)

lemma horizon_xd: "getHorizonInDays ''xd'' = INaN"
  by (simp add: getHorizonInDays_def endsWith_def slice_0_m1_def parseInt_def
      is_white_space_def is_radix_digit_def digit_value_def digits_value_def to_double_def)

section \<open>Length of the series\<close>

text \<open>
  C2, as the code has it. The series has one historical point for each of the
  \<open>trainingDays\<close> days and one forecast point for each of the days of the horizon: when
  \<open>trainingDays\<close> is not negative and the horizon resolves to a day count \<open>h\<close> that is
  not negative, \<open>data\<close> has \<open>trainingDays + h\<close> points. (A horizon such as \<open>-5d\<close>
  resolves to a negative count; the second loop then runs no step, and the length is
  \<open>trainingDays\<close> alone, which the last theorem of this section shows.)
\<close>

theorem data_length_resolved:
  "0 \<le> trainingDays ps \<Longrightarrow> getHorizonInDays (horizon ps) = IVal h \<Longrightarrow> 0 \<le> h
     \<Longrightarrow> int (length (r_data (generateSingleForecast v ps seed))) = trainingDays ps + h"
  by (simp add: data_length)

theorem data_length_resolved_witness:
  "(0 :: int) \<le> 30 \<and> getHorizonInDays ''7d'' = IVal 7 \<and> (0 :: int) \<le> 7
   \<and> int (length (r_data (generateSingleForecast temperature
         \<lparr>trainingDays = 30, horizon = ''7d'', variables = [temperature]\<rparr> 30))) = 37"
  using data_length_resolved [of "\<lparr>trainingDays = 30, horizon = ''7d'', variables = [temperature]\<rparr>"
      7 temperature 30]
  by (simp add: horizon_7d)

theorem data_length_negative_horizon_counterexample:
  "getHorizonInDays ''-5d'' = IVal (- 5)
   \<and> int (length (r_data (generateSingleForecast temperature
         \<lparr>trainingDays = 3, horizon = ''-5d'', variables = [temperature]\<rparr> 3))) \<noteq> 3 + (- 5)"
  by (simp add: data_length horizon_m5d)

section \<open>Bounds of the values and of the confidence band\<close>

lemma ARGO_RANGES_lt: "fst (ARGO_RANGES v) < snd (ARGO_RANGES v)"
  by (cases v) simp_all

lemma historical_point_ok: "mn \<le> mx \<Longrightarrow> historical_ok mn mx (historical_point mn mx td j r)"
  by (simp add: historical_ok_def historical_point_def Let_def)

lemma forecast_point_ok:
  "mn \<le> mx \<Longrightarrow> forecast_ok mn mx td (forecast_point mn mx td hs sa tr j lv r)"
  by (simp add: forecast_ok_def forecast_point_def code_confidence_band_def Let_def)

lemma generateSingleForecast_points:
  assumes rg: "ARGO_RANGES v = (mn, mx)"
  shows "\<exists>hs fs. r_data (generateSingleForecast v ps seed) = hs @ fs
           \<and> length hs = nat (trainingDays ps)
           \<and> length fs = (case getHorizonInDays (horizon ps) of INaN \<Rightarrow> 0 | IVal n \<Rightarrow> nat n)
           \<and> list_all (historical_ok mn mx) hs
           \<and> list_all (forecast_ok mn mx (trainingDays ps)) fs
           \<and> map pt_day hs
               = map (\<lambda>k. ''D-'' @ show_int (trainingDays ps - k)) [0..trainingDays ps - 1]
           \<and> map pt_day fs
               = (case getHorizonInDays (horizon ps) of INaN \<Rightarrow> []
                  | IVal n \<Rightarrow> map (\<lambda>k. ''D+'' @ show_int (k + 1)) [0..n - 1])"
proof (rule generateSingleForecast_parts [OF rg, of ps seed])
  fix hs fs sa tr lv g
  assume hs: "hs = fst (historical_loop mn mx (trainingDays ps) 0 [] (mulberry32 seed))"
    and fs: "fs = forecast_loop mn mx (trainingDays ps) hs sa tr (getHorizonInDays (horizon ps)) 0 [] lv g"
    and d: "r_data (generateSingleForecast v ps seed) = hs @ fs"
  have le: "mn \<le> mx" using ARGO_RANGES_lt [of v] rg by simp
  have 1: "length hs = nat (trainingDays ps)"
    by (simp add: hs historical_loop_length)
  have 2: "length fs = (case getHorizonInDays (horizon ps) of INaN \<Rightarrow> 0 | IVal n \<Rightarrow> nat n)"
    by (simp add: fs forecast_loop_length split: intnum.splits)
  have 3: "list_all (historical_ok mn mx) hs"
    unfolding hs by (rule historical_loop_all) (simp_all add: historical_point_ok le)
  have 4: "list_all (forecast_ok mn mx (trainingDays ps)) fs"
    unfolding fs by (rule forecast_loop_all) (simp_all add: forecast_point_ok le)
  have 5: "map pt_day hs
      = map (\<lambda>k. ''D-'' @ show_int (trainingDays ps - k)) [0..trainingDays ps - 1]"
    by (simp add: hs historical_loop_days)
  have 6: "map pt_day fs
      = (case getHorizonInDays (horizon ps) of INaN \<Rightarrow> []
         | IVal n \<Rightarrow> map (\<lambda>k. ''D+'' @ show_int (k + 1)) [0..n - 1])"
    by (simp add: fs forecast_loop_days)
  from d 1 2 3 4 5 6 show ?thesis by (intro exI conjI)
qed


lemma historical_ok_value: "historical_ok mn mx p \<Longrightarrow> value_in_range mn mx p"
  by (simp add: historical_ok_def value_in_range_def)

lemma forecast_ok_value: "forecast_ok mn mx td p \<Longrightarrow> value_in_range mn mx p"
  by (simp add: forecast_ok_def value_in_range_def)

lemma historical_ok_band: "historical_ok mn mx p \<Longrightarrow> band_ordered mn mx p"
  by (simp add: historical_ok_def band_ordered_def)

lemma forecast_ok_band:
  assumes "forecast_ok mn mx td p" and "td \<le> 120" and "mn \<le> mx"
  shows "band_ordered mn mx p"
proof -
  have "0 \<le> (mx - mn) * 0.15 * (1 - of_int td / 120)"
    using assms(2,3) by simp
  then show ?thesis
    using assms(1) by (auto simp: forecast_ok_def band_ordered_def code_confidence_band_def Let_def)
qed

lemma forecast_ok_inverted:
  assumes "forecast_ok mn mx td p" and "120 < td" and "mn < mx"
  shows "\<not> band_ordered mn mx p"
proof -
  have "(mx - mn) * 0.15 * (1 - of_int td / 120) < 0"
    using assms(2,3) by (simp add: mult_less_0_iff)
  then show ?thesis
    using assms(1) by (auto simp: forecast_ok_def band_ordered_def code_confidence_band_def Let_def)
qed

text \<open>
  C1, as the code has it. Every point of the series, historical or forecast, has its
  value within the bound \<open>[min, max]\<close> of the variable. When \<open>trainingDays\<close> is at most
  120, every confidence pair satisfies
  \<open>min \<le> confidence[0] \<le> value \<le> confidence[1] \<le> max\<close>. Beyond 120 the factor
  \<open>1 - trainingDays / 120\<close> is negative and the pair is the other way round, which
  the last theorem of this section shows at \<open>trainingDays = 150\<close>.
\<close>

theorem points_within_bounds:
  "list_all (value_in_range (fst (ARGO_RANGES v)) (snd (ARGO_RANGES v)))
     (r_data (generateSingleForecast v ps seed))
   \<and> (trainingDays ps \<le> 120 \<longrightarrow>
        list_all (band_ordered (fst (ARGO_RANGES v)) (snd (ARGO_RANGES v)))
          (r_data (generateSingleForecast v ps seed)))"
proof -
  define mn mx where "mn = fst (ARGO_RANGES v)" and "mx = snd (ARGO_RANGES v)"
  have rg: "ARGO_RANGES v = (mn, mx)" by (simp add: mn_def mx_def)
  have le: "mn \<le> mx" using ARGO_RANGES_lt [of v] by (simp add: mn_def mx_def)
  from generateSingleForecast_points [OF rg, of ps seed]
  obtain hs fs where d: "r_data (generateSingleForecast v ps seed) = hs @ fs"
    and h: "list_all (historical_ok mn mx) hs"
    and f: "list_all (forecast_ok mn mx (trainingDays ps)) fs"
    by (elim exE conjE)
  have "list_all (value_in_range mn mx) hs"
    using h by (simp add: list_all_iff historical_ok_value)
  moreover have "list_all (value_in_range mn mx) fs"
    using f by (auto simp: list_all_iff intro: forecast_ok_value)
  moreover have "list_all (band_ordered mn mx) hs"
    using h by (simp add: list_all_iff historical_ok_band)
  moreover have "trainingDays ps \<le> 120 \<Longrightarrow> list_all (band_ordered mn mx) fs"
    using f le by (auto simp: list_all_iff intro: forecast_ok_band)
  ultimately show ?thesis
    unfolding d mn_def [symmetric] mx_def [symmetric] by simp
qed

theorem points_within_bounds_witness:
  "(30 :: int) \<le> 120
   \<and> list_all (value_in_range 26.51 29.27)
        (r_data (generateSingleForecast temperature
           \<lparr>trainingDays = 30, horizon = ''7d'', variables = [temperature]\<rparr> 30))
   \<and> list_all (band_ordered 26.51 29.27)
        (r_data (generateSingleForecast temperature
           \<lparr>trainingDays = 30, horizon = ''7d'', variables = [temperature]\<rparr> 30))"
  using points_within_bounds [of temperature
      "\<lparr>trainingDays = 30, horizon = ''7d'', variables = [temperature]\<rparr>" 30]
  by simp

theorem band_inverted_counterexample:
  "\<not> list_all (band_ordered 26.51 29.27)
        (r_data (generateSingleForecast temperature
           \<lparr>trainingDays = 150, horizon = ''7d'', variables = [temperature]\<rparr> 150))"
proof -
  let ?ps = "\<lparr>trainingDays = 150, horizon = ''7d'', variables = [temperature]\<rparr>"
  have rg: "ARGO_RANGES temperature = (26.51, 29.27)" by simp
  from generateSingleForecast_points [OF rg, of ?ps 150]
  obtain hs fs where d: "r_data (generateSingleForecast temperature ?ps 150) = hs @ fs"
    and n: "length fs = (case getHorizonInDays (horizon ?ps) of INaN \<Rightarrow> 0 | IVal n \<Rightarrow> nat n)"
    and f: "list_all (forecast_ok 26.51 29.27 (trainingDays ?ps)) fs"
    by (elim exE conjE)
  have "length fs = 7" using n by (simp add: horizon_7d)
  then obtain p fs' where fs: "fs = p # fs'" by (cases fs) simp_all
  have "forecast_ok 26.51 29.27 150 p" using f fs by simp
  then have "\<not> band_ordered 26.51 29.27 p"
    by (rule forecast_ok_inverted) simp_all
  then show ?thesis by (simp add: d fs)
qed

section \<open>Construction of the confidence band\<close>

lemma band_differs:
  fixes mn mx v w :: real
  assumes "mn \<le> v" "v \<le> mx" "0 < w" "w < mx - mn"
  shows "(max mn (v - w), min mx (v + w)) \<noteq> (max mn (min mx (v - w / 2)), max mn (min mx (v + w / 2)))"
proof
  assume eq: "(max mn (v - w), min mx (v + w)) = (max mn (min mx (v - w / 2)), max mn (min mx (v + w / 2)))"
  then have lo: "max mn (v - w) = max mn (min mx (v - w / 2))"
    and hi: "min mx (v + w) = max mn (min mx (v + w / 2))" by simp_all
  from lo assms have "v - w / 2 \<le> mn" by (simp add: max_def min_def split: if_splits)
  moreover from hi assms have "mx \<le> v + w / 2" by (simp add: max_def min_def split: if_splits)
  ultimately show False using assms by simp
qed

lemma forecast_ok_not_spec_band:
  assumes ok: "forecast_ok mn mx td p" and td: "0 \<le> td" "td < 120" and lt: "mn < mx"
  shows "\<not> band_is (spec_confidence_band mn mx td) p"
proof -
  define w where "w = (mx - mn) * 0.15 * (1 - of_int td / 120)"
  have f: "0 < 1 - real_of_int td / 120" "1 - real_of_int td / 120 \<le> 1" using td by simp_all
  have w0: "0 < w" unfolding w_def using f lt by simp
  have "w \<le> (mx - mn) * 0.15 * 1"
    unfolding w_def using f lt by (intro mult_left_mono) simp_all
  then have w1: "w < mx - mn" using lt by simp
  have half: "(mx - mn) * 0.075 * (1 - of_int td / 120) = w / 2" by (simp add: w_def)
  have v: "mn \<le> pt_value p" "pt_value p \<le> mx" using ok by (simp_all add: forecast_ok_def)
  have c: "pt_confidence p = Some (max mn (pt_value p - w), min mx (pt_value p + w))"
    using ok by (simp add: forecast_ok_def code_confidence_band_def w_def Let_def)
  have t: "pt_type p = forecast" using ok by (simp add: forecast_ok_def)
  have s: "spec_confidence_band mn mx td (pt_value p)
        = (max mn (min mx (pt_value p - w / 2)), max mn (min mx (pt_value p + w / 2)))"
    unfolding spec_confidence_band_def half Let_def ..
  show ?thesis
    using band_differs [OF v w0 w1] by (simp add: band_is_def t c s)
qed

lemma band_clamped:
  fixes mn mx v w :: real
  assumes "mn \<le> v" "v \<le> mx" "0 \<le> w"
  shows "(max mn (v - w), min mx (v + w)) = (max mn (min mx (v - w)), max mn (min mx (v + w)))"
  using assms by (simp add: max_def min_def)

lemma forecast_ok_clamped:
  assumes ok: "forecast_ok mn mx td p" and td: "td \<le> 120" and le: "mn \<le> mx"
  shows "pt_confidence p = Some (clamped_confidence_band mn mx td (pt_value p))"
proof -
  define w where "w = (mx - mn) * 0.15 * (1 - of_int td / 120)"
  have w0: "0 \<le> w" unfolding w_def using td le by simp
  have v: "mn \<le> pt_value p" "pt_value p \<le> mx" using ok by (simp_all add: forecast_ok_def)
  have "pt_confidence p = Some (max mn (pt_value p - w), min mx (pt_value p + w))"
    using ok by (simp add: forecast_ok_def code_confidence_band_def w_def Let_def)
  also have "\<dots> = Some (clamped_confidence_band mn mx td (pt_value p))"
    unfolding clamped_confidence_band_def Let_def w_def [symmetric]
    using band_clamped [OF v w0] by simp
  finally show ?thesis .
qed

text \<open>
  C3, as the code has it. Every forecast point carries the pair
  \<open>(max min (value - w), min max (value + w))\<close> with the half-width
  \<open>w = range * 0.15 * (1 - trainingDays / 120)\<close>; when \<open>trainingDays\<close> is at most 120
  this is each side, \<open>value - w\<close> and \<open>value + w\<close>, clamped to \<open>[min, max]\<close>. The
  half-width \<open>range * 0.075 * (1 - trainingDays / 120)\<close> is not what the loop computes,
  which the last theorem of this section shows at \<open>trainingDays = 30\<close>.
\<close>

theorem confidence_band_construction:
  "list_all (band_is (code_confidence_band (fst (ARGO_RANGES v)) (snd (ARGO_RANGES v)) (trainingDays ps)))
     (r_data (generateSingleForecast v ps seed))
   \<and> (trainingDays ps \<le> 120 \<longrightarrow>
        list_all (band_is (clamped_confidence_band (fst (ARGO_RANGES v)) (snd (ARGO_RANGES v)) (trainingDays ps)))
          (r_data (generateSingleForecast v ps seed)))"
proof -
  define mn mx where "mn = fst (ARGO_RANGES v)" and "mx = snd (ARGO_RANGES v)"
  have rg: "ARGO_RANGES v = (mn, mx)" by (simp add: mn_def mx_def)
  have le: "mn \<le> mx" using ARGO_RANGES_lt [of v] by (simp add: mn_def mx_def)
  from generateSingleForecast_points [OF rg, of ps seed]
  obtain hs fs where d: "r_data (generateSingleForecast v ps seed) = hs @ fs"
    and h: "list_all (historical_ok mn mx) hs"
    and f: "list_all (forecast_ok mn mx (trainingDays ps)) fs"
    by (elim exE conjE)
  have "list_all (band_is b) hs" for b
    using h by (simp add: list_all_iff historical_ok_def band_is_def)
  moreover have "list_all (band_is (code_confidence_band mn mx (trainingDays ps))) fs"
    using f by (simp add: list_all_iff forecast_ok_def band_is_def)
  moreover have "trainingDays ps \<le> 120
      \<Longrightarrow> list_all (band_is (clamped_confidence_band mn mx (trainingDays ps))) fs"
    using f le by (simp add: list_all_iff forecast_ok_clamped band_is_def)
  ultimately show ?thesis
    unfolding d mn_def [symmetric] mx_def [symmetric] by simp
qed

theorem confidence_band_construction_witness:
  "(30 :: int) \<le> 120
   \<and> list_all (band_is (code_confidence_band 26.51 29.27 30))
        (r_data (generateSingleForecast temperature
           \<lparr>trainingDays = 30, horizon = ''7d'', variables = [temperature]\<rparr> 30))
   \<and> list_all (band_is (clamped_confidence_band 26.51 29.27 30))
        (r_data (generateSingleForecast temperature
           \<lparr>trainingDays = 30, horizon = ''7d'', variables = [temperature]\<rparr> 30))"
  using confidence_band_construction [of temperature
      "\<lparr>trainingDays = 30, horizon = ''7d'', variables = [temperature]\<rparr>" 30]
  by simp

theorem spec_half_width_counterexample:
  "\<not> list_all (band_is (spec_confidence_band 26.51 29.27 30))
        (r_data (generateSingleForecast temperature
           \<lparr>trainingDays = 30, horizon = ''7d'', variables = [temperature]\<rparr> 30))"
proof -
  let ?ps = "\<lparr>trainingDays = 30, horizon = ''7d'', variables = [temperature]\<rparr>"
  have rg: "ARGO_RANGES temperature = (26.51, 29.27)" by simp
  from generateSingleForecast_points [OF rg, of ?ps 30]
  obtain hs fs where d: "r_data (generateSingleForecast temperature ?ps 30) = hs @ fs"
    and n: "length fs = (case getHorizonInDays (horizon ?ps) of INaN \<Rightarrow> 0 | IVal n \<Rightarrow> nat n)"
    and f: "list_all (forecast_ok 26.51 29.27 (trainingDays ?ps)) fs"
    by (elim exE conjE)
  have "length fs = 7" using n by (simp add: horizon_7d)
  then obtain p fs' where fs: "fs = p # fs'" by (cases fs) simp_all
  have "forecast_ok 26.51 29.27 30 p" using f fs by simp
  then have "\<not> band_is (spec_confidence_band 26.51 29.27 30) p"
    by (rule forecast_ok_not_spec_band) simp_all
  then show ?thesis by (simp add: d fs)
qed

section \<open>Labels of the days\<close>

lemma map_pair_const:
  "list_all (\<lambda>p. f p = c) xs \<Longrightarrow> map g xs = map h ks
     \<Longrightarrow> map (\<lambda>p. (f p, g p)) xs = map (\<lambda>k. (c, h k)) ks"
proof (induction xs arbitrary: ks)
  case Nil
  then show ?case by simp
next
  case (Cons x xs)
  then obtain k ks' where "ks = k # ks'" by (cases ks) simp_all
  with Cons show ?case by simp
qed

lemma days_down: "map (\<lambda>k. ''D-'' @ show_int (td - k)) [0..td - 1] = map (\<lambda>k. ''D-'' @ show_int k) (rev [1..td])"
proof -
  have "map (\<lambda>k. ''D-'' @ show_int (td - k)) [0..td - 1]
        = map (\<lambda>k. ''D-'' @ show_int k) (map (\<lambda>k. td - k) [0..td - 1])"
    by (simp add: comp_def)
  then show ?thesis by (simp only: upto_rev)
qed

lemma days_up: "map (\<lambda>k. ''D+'' @ show_int (k + 1)) [0..h - 1] = map (\<lambda>k. ''D+'' @ show_int k) [1..h]"
proof -
  have "map (\<lambda>k. ''D+'' @ show_int (k + 1)) [0..h - 1]
        = map (\<lambda>k. ''D+'' @ show_int k) (map (\<lambda>k. k + 1) [0..h - 1])"
    by (simp add: comp_def)
  then show ?thesis by (simp only: upto_shift)
qed

lemma digit_char_values:
  "digit_char 0 = CHR ''0''" "digit_char 1 = CHR ''1''" "digit_char (Suc 0) = CHR ''1''" "digit_char 2 = CHR ''2''"
  "digit_char 3 = CHR ''3''" "digit_char 4 = CHR ''4''" "digit_char 5 = CHR ''5''"
  "digit_char 6 = CHR ''6''" "digit_char 7 = CHR ''7''" "digit_char 8 = CHR ''8''"
  "digit_char 9 = CHR ''9''"
  unfolding digit_char_def by code_simp+

lemma horizon_3d: "getHorizonInDays ''3d'' = IVal 3"
  by (simp add: getHorizonInDays_def endsWith_def slice_0_m1_def parseInt_def
      is_white_space_def is_radix_digit_def digit_value_def digits_value_def to_double_def)

text \<open>
  C8. The series is the historical points, labelled \<open>D-<trainingDays>\<close> down to \<open>D-1\<close>
  in this order, followed by the forecast points, labelled \<open>D+1\<close> up to
  \<open>D+<horizonDays>\<close> in this order. (\<open>[1..h]\<close> is empty for \<open>h < 1\<close>; a horizon that
  resolves to \<open>NaN\<close> gives no forecast point at all.)
\<close>

theorem labels_in_order:
  "map (\<lambda>p. (pt_type p, pt_day p)) (r_data (generateSingleForecast v ps seed))
     = map (\<lambda>k. (historical, ''D-'' @ show_int k)) (rev [1..trainingDays ps])
       @ (case getHorizonInDays (horizon ps) of
            INaN \<Rightarrow> []
          | IVal h \<Rightarrow> map (\<lambda>k. (forecast, ''D+'' @ show_int k)) [1..h])"
proof -
  obtain mn mx where rg: "ARGO_RANGES v = (mn, mx)" by (cases "ARGO_RANGES v")
  from generateSingleForecast_points [OF rg, of ps seed]
  obtain hs fs where d: "r_data (generateSingleForecast v ps seed) = hs @ fs"
    and h: "list_all (historical_ok mn mx) hs"
    and f: "list_all (forecast_ok mn mx (trainingDays ps)) fs"
    and hd: "map pt_day hs
      = map (\<lambda>k. ''D-'' @ show_int (trainingDays ps - k)) [0..trainingDays ps - 1]"
    and fd: "map pt_day fs
      = (case getHorizonInDays (horizon ps) of INaN \<Rightarrow> []
         | IVal n \<Rightarrow> map (\<lambda>k. ''D+'' @ show_int (k + 1)) [0..n - 1])"
    by (elim exE conjE)
  have ht: "list_all (\<lambda>p. pt_type p = historical) hs"
    using h by (simp add: list_all_iff historical_ok_def)
  have ft: "list_all (\<lambda>p. pt_type p = forecast) fs"
    using f by (simp add: list_all_iff forecast_ok_def)
  have 1: "map (\<lambda>p. (pt_type p, pt_day p)) hs
        = map (\<lambda>k. (historical, ''D-'' @ show_int k)) (rev [1..trainingDays ps])"
    using map_pair_const [OF ht, of pt_day "\<lambda>k. ''D-'' @ show_int k" "rev [1..trainingDays ps]"] hd
    by (simp only: days_down)
  have 2: "map (\<lambda>p. (pt_type p, pt_day p)) fs
        = (case getHorizonInDays (horizon ps) of
            INaN \<Rightarrow> []
          | IVal h \<Rightarrow> map (\<lambda>k. (forecast, ''D+'' @ show_int k)) [1..h])"
  proof (cases "getHorizonInDays (horizon ps)")
    case INaN
    with fd show ?thesis by simp
  next
    case (IVal n)
    with fd have "map pt_day fs = map (\<lambda>k. ''D+'' @ show_int k) [1..n]"
      by (simp only: intnum.case days_up)
    from map_pair_const [OF ft this] IVal show ?thesis by simp
  qed
  show ?thesis by (simp only: d map_append 1 2)
qed

theorem labels_in_order_witness:
  "map (\<lambda>p. (pt_type p, pt_day p))
     (r_data (generateSingleForecast salinity
        \<lparr>trainingDays = 2, horizon = ''3d'', variables = [salinity]\<rparr> 2))
   = [(historical, ''D-2''), (historical, ''D-1''),
      (forecast, ''D+1''), (forecast, ''D+2''), (forecast, ''D+3'')]"
  using labels_in_order [of salinity "\<lparr>trainingDays = 2, horizon = ''3d'', variables = [salinity]\<rparr>" 2]
  by (simp add: horizon_3d upto_rec1 show_int_def show_nat.simps digit_char_values)

section \<open>A horizon whose day count does not parse\<close>

text \<open>
  C9. When the horizon ends in \<open>d\<close> and \<open>parseInt\<close> finds no integer in what precedes it
  (as in \<open>xd\<close>), the horizon resolves to \<open>NaN\<close>. The second loop runs no step: the series
  is the \<open>trainingDays\<close> historical points alone, \<open>stats.min\<close> is \<open>+Infinity\<close>,
  \<open>stats.max\<close> is \<open>-Infinity\<close> and \<open>stats.trend\<close> is \<open>NaN\<close>. The generator returns this
  result; nothing in it raises.
\<close>

theorem unparseable_horizon:
  assumes "endsWith (horizon ps) ''d''" and "parseInt (slice_0_m1 (horizon ps)) = INaN"
  shows "getHorizonInDays (horizon ps) = INaN
         \<and> length (r_data (generateSingleForecast v ps seed)) = nat (trainingDays ps)
         \<and> list_all (\<lambda>p. pt_type p = historical) (r_data (generateSingleForecast v ps seed))
         \<and> st_min (r_stats (generateSingleForecast v ps seed)) = PInf
         \<and> st_max (r_stats (generateSingleForecast v ps seed)) = NInf
         \<and> st_trend (r_stats (generateSingleForecast v ps seed)) = NaN"
proof -
  have hz: "getHorizonInDays (horizon ps) = INaN"
    using assms by (simp add: getHorizonInDays_def)
  obtain mn mx where rg: "ARGO_RANGES v = (mn, mx)" by (cases "ARGO_RANGES v")
  have le: "mn \<le> mx" using ARGO_RANGES_lt [of v] rg by simp
  show ?thesis
  proof (rule generateSingleForecast_parts [OF rg, of ps seed])
    fix hs fs sa tr lv g
    assume hs: "hs = fst (historical_loop mn mx (trainingDays ps) 0 [] (mulberry32 seed))"
      and fs: "fs = forecast_loop mn mx (trainingDays ps) hs sa tr (getHorizonInDays (horizon ps)) 0 [] lv g"
      and d: "r_data (generateSingleForecast v ps seed) = hs @ fs"
      and smin: "st_min (r_stats (generateSingleForecast v ps seed)) = math_min (map pt_value fs)"
      and smax: "st_max (r_stats (generateSingleForecast v ps seed)) = math_max (map pt_value fs)"
      and strend: "st_trend (r_stats (generateSingleForecast v ps seed))
         = num_div (num_sub (to_number (js_index (map pt_value fs) (int (length (map pt_value fs)) - 1)))
                            (to_number (js_index (map pt_value fs) 0)))
                   (num_of_intnum (getHorizonInDays (horizon ps)))"
    have "length fs = 0"
      by (simp add: fs forecast_loop_length hz)
    then have e: "fs = []" by simp
    have n: "length hs = nat (trainingDays ps)"
      by (simp add: hs historical_loop_length)
    have "list_all (historical_ok mn mx) hs"
      unfolding hs by (rule historical_loop_all) (simp_all add: historical_point_ok le)
    then have t: "list_all (\<lambda>p. pt_type p = historical) hs"
      by (simp add: list_all_iff historical_ok_def)
    have tr: "st_trend (r_stats (generateSingleForecast v ps seed)) = NaN"
      by (simp add: strend e js_index_def hz)
    from hz n t tr show ?thesis
      by (simp add: d e smin smax)
  qed
qed

theorem unparseable_horizon_witness:
  "endsWith ''xd'' ''d'' \<and> parseInt (slice_0_m1 ''xd'') = INaN
   \<and> getHorizonInDays ''xd'' = INaN
   \<and> length (r_data (generateSingleForecast temperature
        \<lparr>trainingDays = 30, horizon = ''xd'', variables = [temperature]\<rparr> 30)) = 30
   \<and> st_min (r_stats (generateSingleForecast temperature
        \<lparr>trainingDays = 30, horizon = ''xd'', variables = [temperature]\<rparr> 30)) = PInf
   \<and> st_max (r_stats (generateSingleForecast temperature
        \<lparr>trainingDays = 30, horizon = ''xd'', variables = [temperature]\<rparr> 30)) = NInf
   \<and> st_trend (r_stats (generateSingleForecast temperature
        \<lparr>trainingDays = 30, horizon = ''xd'', variables = [temperature]\<rparr> 30)) = NaN"
proof -
  have 1: "endsWith ''xd'' ''d''" by (simp add: endsWith_def)
  have 2: "parseInt (slice_0_m1 ''xd'') = INaN"
    by (simp add: slice_0_m1_def parseInt_def is_white_space_def is_radix_digit_def digit_value_def)
  show ?thesis
    using 1 2 unparseable_horizon [of "\<lparr>trainingDays = 30, horizon = ''xd'', variables = [temperature]\<rparr>"
        temperature 30]
    by simp
qed

section \<open>Seeds chosen by the orchestrator\<close>

lemma map_index_length: "length (map_index f k xs) = length xs"
  by (induction xs arbitrary: k) simp_all

lemma map_index_nth: "i < length xs \<Longrightarrow> map_index f k xs ! i = f (xs ! i) (k + i)"
proof (induction xs arbitrary: k i)
  case Nil
  then show ?case by simp
next
  case (Cons x xs)
  show ?case
  proof (cases i)
    case 0
    then show ?thesis by simp
  next
    case (Suc j)
    with Cons.prems have "j < length xs" by simp
    from Cons.IH [OF this, of "Suc k"] Suc show ?thesis by simp
  qed
qed

lemma map_index_upt: "map_index f 0 xs = map (\<lambda>i. f (xs ! i) i) [0..<length xs]"
  by (rule nth_equalityI) (simp_all add: map_index_length map_index_nth)

lemma results_eq:
  "results (generateAllForecasts ps)
     = map_index (\<lambda>variable index. generateSingleForecast variable ps (trainingDays ps + int index))
         0 (variables ps)"
  by (simp add: generateAllForecasts_def Let_def)

text \<open>
  C6. For the requested variables \<open>[v0, v1, ...]\<close> the orchestrator's results are, in the
  same order, the outputs of the single-variable generator called with
  \<open>(v_i, params, trainingDays + i)\<close>: as a list, and at each index \<open>i\<close>.
\<close>

theorem orchestrator_seeds:
  "results (generateAllForecasts ps)
     = map (\<lambda>i. generateSingleForecast (variables ps ! i) ps (trainingDays ps + int i))
         [0..<length (variables ps)]
   \<and> length (results (generateAllForecasts ps)) = length (variables ps)
   \<and> (i < length (variables ps) \<longrightarrow>
        results (generateAllForecasts ps) ! i
          = generateSingleForecast (variables ps ! i) ps (trainingDays ps + int i))"
  by (simp add: results_eq map_index_upt)

theorem orchestrator_seeds_witness:
  "(1 :: nat) < length [temperature, salinity]
   \<and> results (generateAllForecasts \<lparr>trainingDays = 40, horizon = ''7d'', variables = [temperature, salinity]\<rparr>)
     = [generateSingleForecast temperature
          \<lparr>trainingDays = 40, horizon = ''7d'', variables = [temperature, salinity]\<rparr> 40,
        generateSingleForecast salinity
          \<lparr>trainingDays = 40, horizon = ''7d'', variables = [temperature, salinity]\<rparr> 41]
   \<and> results (generateAllForecasts \<lparr>trainingDays = 40, horizon = ''7d'', variables = [temperature, salinity]\<rparr>) ! 1
     = generateSingleForecast salinity
          \<lparr>trainingDays = 40, horizon = ''7d'', variables = [temperature, salinity]\<rparr> 41"
  using orchestrator_seeds [of "\<lparr>trainingDays = 40, horizon = ''7d'', variables = [temperature, salinity]\<rparr>" 1]
  by (simp add: upt_rec)

section \<open>The confidence percentage\<close>

lemma st_confidence_eq:
  "st_confidence (r_stats (generateSingleForecast v ps seed))
     = math_round (of_int (trainingDays ps) / 100 * 80 + 20)"
  by (simp add: generateSingleForecast_def Let_def split_def)

lemma math_round_mono: "x \<le> y \<Longrightarrow> math_round x \<le> math_round y"
  unfolding math_round_def by (intro floor_mono) simp

text \<open>
  C7. \<open>stats.confidence\<close> is \<open>round(trainingDays / 100 * 80 + 20)\<close>, an integer that is
  not capped at 100 (200 days give 180). It does not decrease when \<open>trainingDays\<close>
  grows, whatever the variable, the horizon and the seed of the two calls. 10 days give
  28, 60 give 68 and 100 give 100.
\<close>

theorem confidence_percent:
  "st_confidence (r_stats (generateSingleForecast v ps seed))
     = math_round (of_int (trainingDays ps) / 100 * 80 + 20)
   \<and> (trainingDays ps \<le> trainingDays ps' \<longrightarrow>
        st_confidence (r_stats (generateSingleForecast v ps seed))
          \<le> st_confidence (r_stats (generateSingleForecast v' ps' seed')))
   \<and> (trainingDays ps = 10 \<longrightarrow> st_confidence (r_stats (generateSingleForecast v ps seed)) = 28)
   \<and> (trainingDays ps = 60 \<longrightarrow> st_confidence (r_stats (generateSingleForecast v ps seed)) = 68)
   \<and> (trainingDays ps = 100 \<longrightarrow> st_confidence (r_stats (generateSingleForecast v ps seed)) = 100)
   \<and> (trainingDays ps = 200 \<longrightarrow> st_confidence (r_stats (generateSingleForecast v ps seed)) = 180)"
proof -
  have "trainingDays ps \<le> trainingDays ps' \<Longrightarrow>
        math_round (of_int (trainingDays ps) / 100 * 80 + 20)
          \<le> math_round (of_int (trainingDays ps') / 100 * 80 + 20)"
    by (rule math_round_mono) simp
  moreover have "math_round (10 / 100 * 80 + 20) = 28" "math_round (60 / 100 * 80 + 20) = 68"
    "math_round (100 / 100 * 80 + 20) = 100" "math_round (200 / 100 * 80 + 20) = 180"
    by (simp_all add: math_round_def)
  ultimately show ?thesis
    by (simp add: st_confidence_eq)
qed

theorem confidence_percent_witness:
  "(10 :: int) \<le> 60
   \<and> st_confidence (r_stats (generateSingleForecast temperature
        \<lparr>trainingDays = 10, horizon = ''7d'', variables = [temperature]\<rparr> 10)) = 28
   \<and> st_confidence (r_stats (generateSingleForecast salinity
        \<lparr>trainingDays = 60, horizon = ''30d'', variables = [salinity]\<rparr> 61)) = 68
   \<and> st_confidence (r_stats (generateSingleForecast temperature
        \<lparr>trainingDays = 10, horizon = ''7d'', variables = [temperature]\<rparr> 10))
      \<le> st_confidence (r_stats (generateSingleForecast salinity
        \<lparr>trainingDays = 60, horizon = ''30d'', variables = [salinity]\<rparr> 61))"
  using confidence_percent [of temperature "\<lparr>trainingDays = 10, horizon = ''7d'', variables = [temperature]\<rparr>" 10
      "\<lparr>trainingDays = 60, horizon = ''30d'', variables = [salinity]\<rparr>" salinity 61]
    confidence_percent [of salinity "\<lparr>trainingDays = 60, horizon = ''30d'', variables = [salinity]\<rparr>" 61]
  by (simp add: math_round_def)

section \<open>No variable requested\<close>

lemma show_nat_30: "show_nat 30 = ''30''"
  by (simp add: show_nat.simps digit_char_values)

text \<open>
  C10. With an empty list of variables the orchestrator returns a result: no
  per-variable result, and the overall narrative made of the fixed opening and the
  closing sentence alone, in which the overall confidence is the sum of no percentage
  (0) divided by the number of results (0), that is \<open>NaN\<close>, printed as \<open>NaN%\<close>.
\<close>

theorem empty_variables:
  "variables ps = [] \<Longrightarrow>
     results (generateAllForecasts ps) = []
     \<and> num_div (Fin (of_int (foldl (\<lambda>acc r. acc + st_confidence (r_stats r)) 0
            (results (generateAllForecasts ps)))))
          (Fin (of_nat (length (results (generateAllForecasts ps))))) = NaN
     \<and> narrative (generateAllForecasts ps)
       = ''This forecast for the next **'' @ horizon ps @ ''**, based on **''
         @ show_int (trainingDays ps)
         @ '' days** of historical data, suggests the following key trends:''
         @ [CHR 0x0A, CHR 0x0A, CHR 0x0A]
         @ ''**Confidence:** The overall confidence in this forecast is **NaN%**. Longer training periods generally yield higher confidence.''"
  by (simp add: generateAllForecasts_def generateOverallNarrative_def Let_def)

theorem empty_variables_witness:
  "variables \<lparr>trainingDays = 30, horizon = ''7d'', variables = []\<rparr> = []
   \<and> results (generateAllForecasts \<lparr>trainingDays = 30, horizon = ''7d'', variables = []\<rparr>) = []
   \<and> narrative (generateAllForecasts \<lparr>trainingDays = 30, horizon = ''7d'', variables = []\<rparr>)
     = ''This forecast for the next **7d**, based on **30 days** of historical data, suggests the following key trends:''
       @ [CHR 0x0A, CHR 0x0A, CHR 0x0A]
       @ ''**Confidence:** The overall confidence in this forecast is **NaN%**. Longer training periods generally yield higher confidence.''"
  using empty_variables [of "\<lparr>trainingDays = 30, horizon = ''7d'', variables = []\<rparr>"]
  by (simp add: show_int_def show_nat_30)

section \<open>The numbers drawn and the numbers printed\<close>

text \<open>
  The first number of the generator seeded with 1, every number it draws lying in
  [0, 1), and one number as \<open>toFixed(2)\<close> prints it.
\<close>

lemma random_seed_1: "fst (random (mulberry32 1)) = 2693262067 / 4294967296"
  by (simp add: random_def mulberry32_def Let_def)

lemma unit_interval_word:
  fixes w :: "32 word"
  shows "0 \<le> real (unat w) / 4294967296 \<and> real (unat w) / 4294967296 < 1"
proof -
  have "unat w < 4294967296"
    using unsigned_less [of w, where ?'a = nat] by simp
  then have "real (unat w) < real 4294967296"
    by (rule of_nat_less_iff [THEN iffD2])
  moreover have "0 \<le> real (unat w)"
    by (rule of_nat_0_le_iff)
  ultimately show ?thesis by simp
qed

lemma random_unit_interval: "0 \<le> fst (random g) \<and> fst (random g) < 1"
  unfolding random_def Let_def fst_conv by (rule unit_interval_word)

lemma show_nat_2652: "show_nat 2652 = ''2652''"
  by (simp add: show_nat.simps digit_char_values)

lemma toFixed_example_1: "toFixed 2 (Fin 26.515) = ''26.52''"
proof -
  have "nat \<lfloor>\<bar>26.515 :: real\<bar> * 10 ^ 2 + 1 / 2\<rfloor> = 2652" by simp
  then show ?thesis
    by (simp add: fixed_digits_def Let_def show_nat_2652 del: abs_numeral)
qed

section \<open>Resolution of the horizon\<close>

lemma decimal_not_special:
  assumes "48 \<le> (of_char c :: nat)" and "(of_char c :: nat) \<le> 57"
  shows "\<not> is_white_space c" "c \<noteq> CHR ''+''" "c \<noteq> CHR ''-''" "c \<noteq> CHR ''x''" "c \<noteq> CHR ''X''"
  using assms by (auto simp: is_white_space_def)

lemma decimal_is_digit:
  assumes "48 \<le> (of_char c :: nat)" and "(of_char c :: nat) \<le> 57"
  shows "is_radix_digit 10 c"
  using assms by (simp add: is_radix_digit_def digit_value_def)

lemma of_char_digit_char: "d < 10 \<Longrightarrow> (of_char (digit_char d) :: nat) = 48 + d"
  by (simp add: digit_char_def)

lemma digit_value_digit_char: "d < 10 \<Longrightarrow> digit_value (digit_char d) = Some d"
  by (simp add: digit_value_def of_char_digit_char)

lemma show_nat_decimal:
  "show_nat n \<noteq> [] \<and> (\<forall>c \<in> set (show_nat n). 48 \<le> (of_char c :: nat) \<and> (of_char c :: nat) \<le> 57)"
proof (induction n rule: show_nat.induct)
  case (1 n)
  show ?case
  proof (cases "n < 10")
    case True
    then show ?thesis
      by (subst (1 2) show_nat.simps) (simp add: of_char_digit_char)
  next
    case False
    have "n mod 10 < 10" by simp
    then have "(of_char (digit_char (n mod 10)) :: nat) = 48 + n mod 10"
      by (rule of_char_digit_char)
    with False "1.IH" show ?thesis
      by (subst (1 2) show_nat.simps) auto
  qed
qed

lemma digits_value_show_nat: "digits_value 10 (show_nat n) = n"
proof (induction n rule: show_nat.induct)
  case (1 n)
  show ?case
  proof (cases "n < 10")
    case True
    then show ?thesis
      by (subst show_nat.simps) (simp add: digits_value_def digit_value_digit_char)
  next
    case False
    have "digits_value 10 (show_nat (n div 10) @ [digit_char (n mod 10)])
          = digits_value 10 (show_nat (n div 10)) * 10 + n mod 10"
      by (simp add: digits_value_def digit_value_digit_char)
    with False "1.IH" show ?thesis
      by (subst show_nat.simps) simp
  qed
qed

lemma to_double_small: "m < 9007199254740992 \<Longrightarrow> to_double m = m"
  by (simp add: to_double_def)

lemma digits_value_leading_zeros:
  "digits_value 10 (replicate k (CHR ''0'') @ z) = digits_value 10 z"
proof -
  have dv: "digit_value (CHR ''0'') = Some 0" by (simp add: digit_value_def)
  have "foldl (\<lambda>acc c. case digit_value c of None \<Rightarrow> acc | Some v \<Rightarrow> acc * 10 + v) 0
          (replicate k (CHR ''0'')) = 0"
    by (induction k) (simp_all add: dv)
  then show ?thesis by (simp add: digits_value_def)
qed

lemma zeros_decimal: "c \<in> set (replicate k (CHR ''0'')) \<Longrightarrow> 48 \<le> (of_char c :: nat) \<and> (of_char c :: nat) \<le> 57"
  by auto

lemma parseInt_core:
  assumes ne: "ds \<noteq> []"
    and dec: "\<forall>c \<in> set ds. 48 \<le> (of_char c :: nat) \<and> (of_char c :: nat) \<le> 57"
    and rest: "rest = [] \<or> (\<not> is_radix_digit 10 (hd rest) \<and> hd rest \<noteq> CHR ''x'' \<and> hd rest \<noteq> CHR ''X'')"
  shows "ds @ rest \<noteq> []"
    and "\<not> is_white_space (hd (ds @ rest))"
    and "hd (ds @ rest) \<noteq> CHR ''+''" and "hd (ds @ rest) \<noteq> CHR ''-''"
    and "take 2 (ds @ rest) \<noteq> ''0x''" and "take 2 (ds @ rest) \<noteq> ''0X''"
    and "takeWhile (is_radix_digit 10) (ds @ rest) = ds"
proof -
  obtain c cs where ds: "ds = c # cs" using ne by (cases ds) simp_all
  have c: "48 \<le> (of_char c :: nat)" "(of_char c :: nat) \<le> 57" using dec ds by simp_all
  show "ds @ rest \<noteq> []" using ne by simp
  show "\<not> is_white_space (hd (ds @ rest))"
    using decimal_not_special(1) [OF c] ds by simp
  show "hd (ds @ rest) \<noteq> CHR ''+''" "hd (ds @ rest) \<noteq> CHR ''-''"
    using decimal_not_special(2,3) [OF c] ds by simp_all
  have second: "c2 \<noteq> CHR ''x'' \<and> c2 \<noteq> CHR ''X''" if "take 2 (ds @ rest) = [c, c2]" for c2
  proof (cases cs)
    case Nil
    with that ds have "rest \<noteq> []" "hd rest = c2" by (cases rest; simp)+
    with rest show ?thesis by simp
  next
    case (Cons d cs')
    with that ds have "c2 = d" by simp
    moreover have "48 \<le> (of_char d :: nat)" "(of_char d :: nat) \<le> 57"
      using dec ds Cons by simp_all
    ultimately show ?thesis using decimal_not_special(4,5) by blast
  qed
  show "take 2 (ds @ rest) \<noteq> ''0x''"
  proof
    assume a: "take 2 (ds @ rest) = ''0x''"
    then have "c = CHR ''0''" using ds by simp
    with a second [of "CHR ''x''"] show False by simp
  qed
  show "take 2 (ds @ rest) \<noteq> ''0X''"
  proof
    assume a: "take 2 (ds @ rest) = ''0X''"
    then have "c = CHR ''0''" using ds by simp
    with a second [of "CHR ''X''"] show False by simp
  qed
  have "takeWhile (is_radix_digit 10) rest = []"
    using rest by (cases rest) simp_all
  moreover have "\<forall>c \<in> set ds. is_radix_digit 10 c"
    using dec by (simp add: decimal_is_digit)
  ultimately show "takeWhile (is_radix_digit 10) (ds @ rest) = ds"
    by (simp add: takeWhile_append2)
qed

lemma parseInt_decimal_run:
  assumes ws: "\<forall>c \<in> set ws. is_white_space c"
    and sg: "sg = [] \<or> sg = ''+'' \<or> sg = ''-''"
    and ne: "ds \<noteq> []"
    and dec: "\<forall>c \<in> set ds. 48 \<le> (of_char c :: nat) \<and> (of_char c :: nat) \<le> 57"
    and rest: "rest = [] \<or> (\<not> is_radix_digit 10 (hd rest) \<and> hd rest \<noteq> CHR ''x'' \<and> hd rest \<noteq> CHR ''X'')"
  shows "parseInt (ws @ sg @ ds @ rest)
           = IVal ((if sg = ''-'' then - 1 else 1) * int (to_double (digits_value 10 ds)))"
proof -
  note core = parseInt_core [OF ne dec rest]
  define t where "t = ds @ rest"
  have t: "t \<noteq> []" "\<not> is_white_space (hd t)" "hd t \<noteq> CHR ''+''" "hd t \<noteq> CHR ''-''"
    "take 2 t \<noteq> ''0x''" "take 2 t \<noteq> ''0X''" "takeWhile (is_radix_digit 10) t = ds"
    unfolding t_def by (rule core)+
  have nws: "\<not> is_white_space (hd (sg @ t))" "sg @ t \<noteq> []"
    using sg t(1,2) by (auto simp: is_white_space_def)
  then obtain b bs where b: "sg @ t = b # bs" by (cases "sg @ t") simp_all
  have "dropWhile is_white_space (ws @ sg @ t) = dropWhile is_white_space (sg @ t)"
    using ws by (simp add: dropWhile_append2)
  also have "\<dots> = sg @ t" using nws b by simp
  finally have 1: "dropWhile is_white_space (ws @ sg @ ds @ rest) = sg @ t"
    by (simp add: t_def)
  obtain c cs where c: "t = c # cs" using t(1) by (cases t) simp_all
  from sg show ?thesis
  proof (elim disjE)
    assume "sg = []"
    then show ?thesis
      unfolding parseInt_def Let_def 1 using t(1,3,4,5,6) ne by (simp add: t(7))
  next
    assume "sg = ''+''"
    then show ?thesis
      unfolding parseInt_def Let_def 1 using t(1,3,4,5,6) ne by (simp add: t(7))
  next
    assume "sg = ''-''"
    then show ?thesis
      unfolding parseInt_def Let_def 1 using t(1,3,4,5,6) ne by (simp add: t(7))
  qed
qed

lemma parseInt_NaN_iff: "parseInt s = INaN \<longleftrightarrow> \<not> parseable s"
  by (simp add: parseInt_def parseable_def Let_def takeWhile_eq_Nil_iff)

lemma getHorizonInDays_days: "getHorizonInDays (s @ ''d'') = parseInt s"
  by (simp add: getHorizonInDays_def endsWith_def slice_0_m1_def)

lemma horizon_decimal_run:
  assumes ws: "\<forall>c \<in> set ws. is_white_space c"
    and sg: "sg = [] \<or> sg = ''+'' \<or> sg = ''-''"
    and n: "n < 9007199254740992"
    and rest: "rest = [] \<or> (\<not> is_radix_digit 10 (hd rest) \<and> hd rest \<noteq> CHR ''x'' \<and> hd rest \<noteq> CHR ''X'')"
  shows "getHorizonInDays (ws @ sg @ replicate k (CHR ''0'') @ show_nat n @ rest @ ''d'')
           = IVal ((if sg = ''-'' then - 1 else 1) * int n)"
proof -
  define ds where "ds = replicate k (CHR ''0'') @ show_nat n"
  have ne: "ds \<noteq> []" using show_nat_decimal [of n] by (simp add: ds_def)
  have dec: "\<forall>c \<in> set ds. 48 \<le> (of_char c :: nat) \<and> (of_char c :: nat) \<le> 57"
    using show_nat_decimal [of n] by (auto simp: ds_def)
  have v: "digits_value 10 ds = n"
    by (simp add: ds_def digits_value_leading_zeros digits_value_show_nat)
  have "getHorizonInDays ((ws @ sg @ ds @ rest) @ ''d'') = parseInt (ws @ sg @ ds @ rest)"
    by (rule getHorizonInDays_days)
  also have "\<dots> = IVal ((if sg = ''-'' then - 1 else 1) * int (to_double (digits_value 10 ds)))"
    by (rule parseInt_decimal_run [OF ws sg ne dec rest])
  also have "\<dots> = IVal ((if sg = ''-'' then - 1 else 1) * int n)"
    using n by (simp add: v to_double_small)
  finally show ?thesis by (simp add: ds_def)
qed

lemma bit_length_54: "bit_length 9007199254740993 = 54" "bit_length 9007199254740995 = 54"
  by (simp_all add: bit_length.simps)

lemma to_double_tie_to_even:
  "to_double 9007199254740993 = 9007199254740992" "to_double 9007199254740995 = 9007199254740996"
  by (simp_all add: to_double_def bit_length_54 Let_def)

lemma horizon_beyond_2_53: "getHorizonInDays ''9007199254740993d'' = IVal 9007199254740992"
  by (simp add: getHorizonInDays_def endsWith_def slice_0_m1_def parseInt_def
      is_white_space_def is_radix_digit_def digit_value_def digits_value_def to_double_tie_to_even)

lemma horizon_2_months: "getHorizonInDays ''2 months'' = IVal 30"
  by (simp add: getHorizonInDays_def endsWith_def)

lemma horizon_garbage: "getHorizonInDays ''garbage'' = IVal 30"
  by (simp add: getHorizonInDays_def endsWith_def)

lemma horizon_14d: "getHorizonInDays ''14d'' = IVal 14"
  by (simp add: getHorizonInDays_def endsWith_def slice_0_m1_def parseInt_def
      is_white_space_def is_radix_digit_def digit_value_def digits_value_def to_double_def)

lemma horizon_variants:
  "getHorizonInDays ''007d'' = IVal 7" "getHorizonInDays ''+7d'' = IVal 7"
  "getHorizonInDays '' 7d'' = IVal 7" "getHorizonInDays ''12.5d'' = IVal 12"
  "getHorizonInDays ''0x10d'' = IVal 16"
  by (simp_all add: getHorizonInDays_def endsWith_def slice_0_m1_def parseInt_def
      is_white_space_def is_radix_digit_def digit_value_def digits_value_def to_double_def)

text \<open>
  C5, as the code has it. Horizon resolution returns a value for every string. A
  string that does not end in \<open>d\<close> resolves to 30, whether it contains \<open>month\<close> or not
  (\<open>2 months\<close> and \<open>garbage\<close> resolve to 30). A string that ends in \<open>d\<close> resolves to
  \<open>parseInt\<close> of what precedes the \<open>d\<close>. That is \<open>NaN\<close>, and no day count, exactly when
  \<open>parseInt\<close> finds no integer there (\<open>xd\<close>). Otherwise it is the number parsed: after
  any white space and an optional sign, the decimal digits of \<open>n < 2^53\<close>, with any
  number of zeros before them and anything that does not start with a digit or an
  \<open>x\<close> after them, resolve to \<open>n\<close> with that sign (\<open>14d\<close> to 14; \<open>007d\<close>, \<open>+7d\<close> and
  \<open> 7d\<close> to 7; \<open>12.5d\<close> to 12), \<open>0x10d\<close> resolves to 16, and from \<open>2^53\<close> on the number
  is the nearest double (\<open>9007199254740993d\<close> resolves to 9007199254740992).
\<close>

theorem horizon_resolution:
  "(\<not> endsWith h ''d'' \<longrightarrow> getHorizonInDays h = IVal 30)
   \<and> (endsWith h' ''d'' \<longrightarrow>
        getHorizonInDays h' = parseInt (slice_0_m1 h')
        \<and> (getHorizonInDays h' = INaN \<longleftrightarrow> \<not> parseable (slice_0_m1 h')))
   \<and> ((\<forall>c \<in> set ws. is_white_space c) \<and> (sg = [] \<or> sg = ''+'' \<or> sg = ''-'')
        \<and> n < 9007199254740992
        \<and> (rest = [] \<or> (\<not> is_radix_digit 10 (hd rest) \<and> hd rest \<noteq> CHR ''x'' \<and> hd rest \<noteq> CHR ''X''))
      \<longrightarrow> getHorizonInDays (ws @ sg @ replicate k (CHR ''0'') @ show_nat n @ rest @ ''d'')
            = IVal ((if sg = ''-'' then - 1 else 1) * int n))
   \<and> getHorizonInDays ''14d'' = IVal 14
   \<and> getHorizonInDays ''2 months'' = IVal 30
   \<and> getHorizonInDays ''garbage'' = IVal 30
   \<and> getHorizonInDays ''007d'' = IVal 7
   \<and> getHorizonInDays ''+7d'' = IVal 7
   \<and> getHorizonInDays '' 7d'' = IVal 7
   \<and> getHorizonInDays ''12.5d'' = IVal 12
   \<and> getHorizonInDays ''0x10d'' = IVal 16
   \<and> getHorizonInDays ''9007199254740993d'' = IVal 9007199254740992"
proof -
  have a: "\<not> endsWith h ''d'' \<longrightarrow> getHorizonInDays h = IVal 30"
    by (simp add: getHorizonInDays_def)
  have bc: "endsWith h' ''d'' \<longrightarrow>
        getHorizonInDays h' = parseInt (slice_0_m1 h')
        \<and> (getHorizonInDays h' = INaN \<longleftrightarrow> \<not> parseable (slice_0_m1 h'))"
    by (simp add: getHorizonInDays_def parseInt_NaN_iff)
  have d: "(\<forall>c \<in> set ws. is_white_space c) \<and> (sg = [] \<or> sg = ''+'' \<or> sg = ''-'')
        \<and> n < 9007199254740992
        \<and> (rest = [] \<or> (\<not> is_radix_digit 10 (hd rest) \<and> hd rest \<noteq> CHR ''x'' \<and> hd rest \<noteq> CHR ''X''))
      \<longrightarrow> getHorizonInDays (ws @ sg @ replicate k (CHR ''0'') @ show_nat n @ rest @ ''d'')
            = IVal ((if sg = ''-'' then - 1 else 1) * int n)"
  proof (rule impI)
    assume as: "(\<forall>c \<in> set ws. is_white_space c) \<and> (sg = [] \<or> sg = ''+'' \<or> sg = ''-'')
        \<and> n < 9007199254740992
        \<and> (rest = [] \<or> (\<not> is_radix_digit 10 (hd rest) \<and> hd rest \<noteq> CHR ''x'' \<and> hd rest \<noteq> CHR ''X''))"
    from as have 1: "\<forall>c \<in> set ws. is_white_space c" by (rule conjunct1)
    from as have 2: "sg = [] \<or> sg = ''+'' \<or> sg = ''-''" by (rule conjunct2 [THEN conjunct1])
    from as have 3: "n < 9007199254740992" by (rule conjunct2 [THEN conjunct2, THEN conjunct1])
    from as have 4: "rest = [] \<or> (\<not> is_radix_digit 10 (hd rest) \<and> hd rest \<noteq> CHR ''x'' \<and> hd rest \<noteq> CHR ''X'')"
      by (rule conjunct2 [THEN conjunct2, THEN conjunct2])
    show "getHorizonInDays (ws @ sg @ replicate k (CHR ''0'') @ show_nat n @ rest @ ''d'')
            = IVal ((if sg = ''-'' then - 1 else 1) * int n)"
      by (rule horizon_decimal_run [OF 1 2 3 4])
  qed
  show ?thesis
    by (intro conjI a bc d horizon_14d horizon_2_months horizon_garbage horizon_variants
        horizon_beyond_2_53)
qed

theorem horizon_resolution_witness:
  "\<not> endsWith ''3 months'' ''d'' \<and> getHorizonInDays ''3 months'' = IVal 30
   \<and> endsWith '' -007.5d'' ''d'' \<and> parseable '' -007.5''
   \<and> getHorizonInDays '' -007.5d'' = parseInt '' -007.5''
   \<and> getHorizonInDays '' -007.5d'' = IVal (- 7)"
proof -
  have 1: "\<not> endsWith ''3 months'' ''d''" and 2: "endsWith '' -007.5d'' ''d''"
    by (simp_all add: endsWith_def)
  have 3: "(\<forall>c \<in> set '' ''. is_white_space c) \<and> (''-'' = [] \<or> ''-'' = ''+'' \<or> ''-'' = ''-'')
      \<and> (7 :: nat) < 9007199254740992
      \<and> (''.5'' = [] \<or> (\<not> is_radix_digit 10 (hd ''.5'') \<and> hd ''.5'' \<noteq> CHR ''x'' \<and> hd ''.5'' \<noteq> CHR ''X''))"
    by (simp add: is_white_space_def is_radix_digit_def digit_value_def)
  have "replicate 2 (CHR ''0'') = ''00''" by (simp add: numeral_2_eq_2)
  moreover have "show_nat 7 = ''7''" by (simp add: show_nat.simps digit_char_values)
  ultimately have 5: "'' '' @ ''-'' @ replicate 2 (CHR ''0'') @ show_nat 7 @ ''.5'' @ ''d'' = '' -007.5d''"
    by simp
  have 6: "slice_0_m1 '' -007.5d'' = '' -007.5''" by (simp add: slice_0_m1_def)
  note hr = horizon_resolution [of "''3 months''" "'' -007.5d''" "'' ''" "''-''" 7 "''.5''" 2]
  have A: "getHorizonInDays ''3 months'' = IVal 30"
    by (rule hr [THEN conjunct1, THEN mp, OF 1])
  note BC = hr [THEN conjunct2, THEN conjunct1, THEN mp, OF 2, unfolded 6]
  have B: "getHorizonInDays '' -007.5d'' = parseInt '' -007.5''"
    by (rule BC [THEN conjunct1])
  have D: "getHorizonInDays '' -007.5d'' = IVal (- 7)"
    using hr [THEN conjunct2, THEN conjunct2, THEN conjunct1, THEN mp, OF 3] unfolding 5 by simp
  have E: "parseable '' -007.5''"
    using BC [THEN conjunct2] D by simp
  show ?thesis
    by (intro conjI 1 2 A B D E)
qed

theorem horizon_not_a_day_count_counterexample:
  "endsWith ''xd'' ''d'' \<and> getHorizonInDays ''xd'' = INaN"
  by (simp add: horizon_xd endsWith_def)

end
